theory Spec2Isabelle
  imports Main
begin

section \<open>JavaScript strings\<close>

text \<open>
  A string is a list of UTF-16 code units; the model covers the code units below 256
  (Latin-1 text), which \<open>char\<close> holds, so \<open>length\<close> is the \<open>length\<close> of the source.
  On these, \<open>toLowerCase\<close> maps A-Z and the letters \<open>0xC0\<close>-\<open>0xDE\<close> (but not the
  multiplication sign \<open>0xD7\<close>) to the code unit 32 above. \<open>toUpperCase\<close> maps a-z and
  \<open>0xE0\<close>-\<open>0xFE\<close> (but not the division sign \<open>0xF7\<close>) to the code unit 32 below,
  the sharp s \<open>0xDF\<close> to the two letters SS, the micro sign \<open>0xB5\<close> to U+039C and
  \<open>0xFF\<close> to U+0178; its result can leave Latin-1, so it is a list of code units as
  numbers. \<open>trim\<close> removes tab, line feed, vertical tab, form feed, carriage return,
  space and the no-break space \<open>0xA0\<close>.
\<close>

definition asciiUpper :: "char \<Rightarrow> char option" where
  "asciiUpper c =
     map_of (zip ''abcdefghijklmnopqrstuvwxyz'' ''ABCDEFGHIJKLMNOPQRSTUVWXYZ'') c"

definition asciiLower :: "char \<Rightarrow> char option" where
  "asciiLower c =
     map_of (zip ''ABCDEFGHIJKLMNOPQRSTUVWXYZ'' ''abcdefghijklmnopqrstuvwxyz'') c"

definition toUpperUnits :: "char \<Rightarrow> nat list" where
  "toUpperUnits c =
     (case asciiUpper c of
        Some u \<Rightarrow> [of_char u]
      | None \<Rightarrow>
          (let n = of_char c
           in if n = 223 then [83, 83]
              else if n = 181 then [924]
              else if n = 255 then [376]
              else if 224 \<le> n \<and> n \<le> 254 \<and> n \<noteq> 247 then [n - 32]
              else [n]))"

definition toUpperCase :: "string \<Rightarrow> nat list" where
  "toUpperCase s = concat (map toUpperUnits s)"

text \<open>The code units of a string literal of the source, as numbers.\<close>

definition codeUnits :: "string \<Rightarrow> nat list" where
  "codeUnits s = map of_char s"

definition toLowerChar :: "char \<Rightarrow> char" where
  "toLowerChar c =
     (case asciiLower c of
        Some l \<Rightarrow> l
      | None \<Rightarrow>
          (let n = (of_char c :: nat)
           in if 192 \<le> n \<and> n \<le> 222 \<and> n \<noteq> 215 then char_of (n + 32) else c))"

definition toLowerCase :: "string \<Rightarrow> string" where
  "toLowerCase s = map toLowerChar s"

definition startsWith :: "'a list \<Rightarrow> 'a list \<Rightarrow> bool" where
  "startsWith s p = (take (length p) s = p)"

text \<open>\<open>s.substring(n)\<close> with one argument: the code units from index \<open>n\<close> on.\<close>

definition substring :: "string \<Rightarrow> nat \<Rightarrow> string" where
  "substring s n = drop n s"

definition isWhiteSpace :: "char \<Rightarrow> bool" where
  "isWhiteSpace c =
     (c \<in> set [CHR 0x09, CHR 0x0A, CHR 0x0B, CHR 0x0C, CHR 0x0D, CHR '' '', CHR 0xA0])"

definition trim :: "string \<Rightarrow> string" where
  "trim s = rev (dropWhile isWhiteSpace (rev (dropWhile isWhiteSpace s)))"

text \<open>
  \<open>s.split(sep)\<close> for a one-character separator: every occurrence separates, and the
  result is never empty (\<open>"".split(":")\<close> is \<open>[""]\<close>).
\<close>

fun splitOn :: "char \<Rightarrow> string \<Rightarrow> string list" where
  "splitOn sep [] = [[]]"
| "splitOn sep (c # cs) =
     (if c = sep then [] # splitOn sep cs
      else (case splitOn sep cs of
              [] \<Rightarrow> [[c]]
            | p # ps \<Rightarrow> (c # p) # ps))"

fun join :: "string \<Rightarrow> string list \<Rightarrow> string" where
  "join sep [] = []"
| "join sep [p] = p"
| "join sep (p # q # ps) = p @ sep @ join sep (q # ps)"

fun showNat :: "nat \<Rightarrow> string" where
  "showNat n =
     (if n < 10 then [char_of (48 + n)]
      else showNat (n div 10) @ [char_of (48 + n mod 10)])"

definition nl :: string where
  "nl = [CHR 0x0A]"

definition dq :: string where
  "dq = [CHR 0x22]"

section \<open>Values, errors and effects\<close>

datatype jsval =
    JUndefined
  | JNull
  | JBool bool
  | JNum int
  | JStr string
  | JArr "jsval list"
  | JObj "(string \<times> jsval) list"

text \<open>
  A call either returns a value or throws one; JavaScript can throw any value, \<open>null\<close>
  and \<open>undefined\<close> included. \<open>Error msg\<close> is an error object, whose \<open>message\<close>
  property holds \<open>msg\<close>. \<open>TypeError\<close> is the error the runtime throws on reading a
  property of \<open>null\<close> or \<open>undefined\<close>; the text of its message depends on the engine
  and the program never reads it.
\<close>

type_synonym 'a result = "jsval + 'a"

definition Error :: "string \<Rightarrow> jsval" where
  "Error msg = JObj [(''message'', JStr msg)]"

definition TypeError :: jsval where
  "TypeError = JObj [(''name'', JStr ''TypeError'')]"

record userMessage =
  role :: string
  content :: string
  timestamp :: nat

record userPersona =
  messageHistory :: "userMessage list"
  styleSamples :: "string list"

record searchResult =
  title :: string
  link :: string
  snippet :: string

text \<open>
  The observable effects of a run, in order: the entry into a function of the source
  (by its name) and the calls of \<open>message.reply\<close> (\<open>None\<close> is the JavaScript \<open>null\<close>).
  Console output is not recorded.
\<close>

datatype event = Called string | Replied "string option"

record world =
  persona :: userPersona
  ALLOWED_GROUP_IDS :: "string list"
  events :: "event list"

record config =
  MAX_SEARCH_RESULTS :: int
  SEARCH_ENABLED :: bool
  PHONE_INTEGRATION_ENABLED :: bool
  USER_PERSONA_ENABLED :: bool
  USER_PERSONA_LEARNING_MODE :: bool
  GROUP_RESTRICTION_ENABLED :: bool

text \<open>
  The class \<open>PhoneIntegration\<close>: \<open>getContacts\<close>, \<open>getLocation\<close> and
  \<open>getCalendarEvents\<close> take no argument; each capability may throw.
\<close>

record phoneIntegration =
  getContacts :: "jsval result"
  searchFiles :: "string \<Rightarrow> jsval result"
  readFile :: "string \<Rightarrow> jsval result"
  getLocation :: "jsval result"
  getCalendarEvents :: "jsval result"

text \<open>
  The external collaborators of one message's processing. \<open>generateContent\<close> is the
  language model (\<open>getGenerativeModel\<close>, \<open>generateContent\<close> and \<open>response.text()\<close>
  together), \<open>searchGoogle\<close> the HTTP request and the extraction of the result entries,
  \<open>writePersonaFile\<close> the \<open>mkdir\<close> and \<open>writeFile\<close> of the persona file,
  \<open>sendReply\<close> the transport's \<open>message.reply\<close>; each may fail.
\<close>

record env =
  generateContent :: "string \<Rightarrow> string result"
  searchGoogle :: "string \<Rightarrow> searchResult list result"
  phone :: phoneIntegration
  writePersonaFile :: "userPersona \<Rightarrow> unit result"
  sendReply :: "string option \<Rightarrow> unit result"
  dateNow :: nat
  jsonStringify :: "jsval \<Rightarrow> string"
  jsonStringifyPretty :: "jsval \<Rightarrow> string"
  toStringJs :: "jsval \<Rightarrow> string"

text \<open>
  An asynchronous function of the source is a function from the world to its outcome
  (\<open>Inl\<close> a thrown error, \<open>Inr\<close> the returned value) and the world it leaves.
\<close>

type_synonym 'a io = "world \<Rightarrow> 'a result \<times> world"

definition io_return :: "'a \<Rightarrow> 'a io" where
  "io_return x = (\<lambda>w. (Inr x, w))"

definition io_throw :: "jsval \<Rightarrow> 'a io" where
  "io_throw e = (\<lambda>w. (Inl e, w))"

definition io_lift :: "'a result \<Rightarrow> 'a io" where
  "io_lift r = (\<lambda>w. (r, w))"

definition io_bind :: "'a io \<Rightarrow> ('a \<Rightarrow> 'b io) \<Rightarrow> 'b io" where
  "io_bind m f = (\<lambda>w. case m w of (Inl e, w') \<Rightarrow> (Inl e, w') | (Inr x, w') \<Rightarrow> f x w')"

definition try_catch :: "'a io \<Rightarrow> (jsval \<Rightarrow> 'a io) \<Rightarrow> 'a io" where
  "try_catch m h = (\<lambda>w. case m w of (Inl e, w') \<Rightarrow> h e w' | (Inr x, w') \<Rightarrow> (Inr x, w'))"

definition called :: "string \<Rightarrow> unit io" where
  "called f = (\<lambda>w. (Inr (), w\<lparr>events := events w @ [Called f]\<rparr>))"

definition getPersona :: "userPersona io" where
  "getPersona = (\<lambda>w. (Inr (persona w), w))"

section \<open>Classification: analyzeWithAI\<close>

record aiAnalysis =
  needsSearch :: bool
  needsPhoneAccess :: bool
  searchQuery :: "string option"
  phoneAccessType :: "string option"
  phoneAccessQuery :: "string option"
  response :: "string option"

text \<open>
  A field that an object literal of the source leaves out is \<open>None\<close>, and so is
  \<open>response: null\<close>.
\<close>

definition analysisPrompt :: "string \<Rightarrow> string" where
  "analysisPrompt text =
     ''You are a helpful WhatsApp assistant that understands user messages and determines what action to take.'' @ nl @
     ''                 You can either provide a direct response, indicate a need to search for information online,'' @ nl @
     ''                 or indicate a need to access phone data (contacts, files, calendar, or location).'' @ nl @
     ''                 '' @ nl @
     ''                 Analyze this message and decide what action to take: '' @ dq @ text @ dq @ ''.'' @ nl @
     ''                 If web search is needed, respond with '' @ dq @ ''SEARCH: <search query>'' @ dq @ ''.'' @ nl @
     ''                 If phone data access is needed, respond with '' @ dq @ ''PHONE: <type>:<query>'' @ dq @
       '' where type is contacts, files, calendar, or location.'' @ nl @
     ''                 If neither is needed, provide a direct helpful response.''"

definition analysisFallback :: string where
  "analysisFallback =
     ''I'm having trouble understanding your message right now. Could you please try again?''"

definition analyzeWithAI :: "env \<Rightarrow> string \<Rightarrow> aiAnalysis io" where
  "analyzeWithAI e text =
     io_bind (called ''analyzeWithAI'') (\<lambda>_.
     try_catch
       (io_bind (io_lift (generateContent e (analysisPrompt text))) (\<lambda>response.
          if startsWith (toUpperCase response) (codeUnits ''SEARCH:'') then
            io_return \<lparr>needsSearch = True, needsPhoneAccess = False,
              searchQuery = Some (trim (substring response (length ''SEARCH:''))),
              phoneAccessType = None, phoneAccessQuery = None, response = None\<rparr>
          else if startsWith (toUpperCase response) (codeUnits ''PHONE:'') then
            (case splitOn CHR '':'' (trim (substring response (length ''PHONE:''))) of
               [] \<Rightarrow> io_throw TypeError
             | accessType # queryParts \<Rightarrow>
                 io_return \<lparr>needsSearch = False, needsPhoneAccess = True,
                   searchQuery = None,
                   phoneAccessType = Some (toLowerCase accessType),
                   phoneAccessQuery = Some (trim (join '':'' queryParts)),
                   response = None\<rparr>)
          else
            io_return \<lparr>needsSearch = False, needsPhoneAccess = False,
              searchQuery = None, phoneAccessType = None, phoneAccessQuery = None,
              response = Some response\<rparr>))
       (\<lambda>error.
          io_return \<lparr>needsSearch = False, needsPhoneAccess = False,
            searchQuery = None, phoneAccessType = None, phoneAccessQuery = None,
            response = Some analysisFallback\<rparr>))"

section \<open>Persona store: learnFromUserMessage\<close>

definition modifyPersona :: "(userPersona \<Rightarrow> userPersona) \<Rightarrow> unit io" where
  "modifyPersona f = (\<lambda>w. (Inr (), w\<lparr>persona := f (persona w)\<rparr>))"

text \<open>\<open>xs.push(x)\<close> appends at the end, \<open>xs.shift()\<close> removes the first element.\<close>

definition push :: "'a \<Rightarrow> 'a list \<Rightarrow> 'a list" where
  "push x xs = xs @ [x]"

definition shift :: "'a list \<Rightarrow> 'a list" where
  "shift xs = tl xs"

definition saveUserPersona :: "env \<Rightarrow> unit io" where
  "saveUserPersona e =
     io_bind (called ''saveUserPersona'') (\<lambda>_.
     try_catch
       (io_bind getPersona (\<lambda>p. io_lift (writePersonaFile e p)))
       (\<lambda>error. io_return ()))"

definition addStyleSample :: "string \<Rightarrow> userPersona \<Rightarrow> userPersona" where
  "addStyleSample messageText p =
     (if length messageText > 30 then
        (let pushed = push messageText (styleSamples p)
         in p\<lparr>styleSamples := (if length pushed > 50 then shift pushed else pushed)\<rparr>)
      else p)"

definition addToHistory :: "nat \<Rightarrow> string \<Rightarrow> userPersona \<Rightarrow> userPersona" where
  "addToHistory now messageText p =
     (let pushed = push \<lparr>role = ''user'', content = messageText, timestamp = now\<rparr>
                     (messageHistory p)
      in p\<lparr>messageHistory := (if length pushed > 100 then shift pushed else pushed)\<rparr>)"

definition learnFromUserMessage :: "env \<Rightarrow> string \<Rightarrow> unit io" where
  "learnFromUserMessage e messageText =
     io_bind (called ''learnFromUserMessage'') (\<lambda>_.
     if length messageText < 10 then io_return ()
     else
       io_bind (modifyPersona (addStyleSample messageText)) (\<lambda>_.
       io_bind (modifyPersona (addToHistory (dateNow e) messageText)) (\<lambda>_.
       saveUserPersona e)))"

section \<open>Fulfilment: search, phone data, persona\<close>

text \<open>
  A property the object does not have reads as \<open>undefined\<close>, which a template literal
  and \<open>encodeURIComponent\<close> render as the text \<open>undefined\<close>; the file search
  capability is given the same rendering.
\<close>

definition orUndefined :: "string option \<Rightarrow> string" where
  "orUndefined v = (case v of Some s \<Rightarrow> s | None \<Rightarrow> ''undefined'')"

text \<open>\<open>xs.slice(0, m)\<close>: a negative \<open>m\<close> counts from the end.\<close>

definition slice0 :: "int \<Rightarrow> 'a list \<Rightarrow> 'a list" where
  "slice0 m xs = (if 0 \<le> m then take (nat m) xs else take (length xs - nat (- m)) xs)"

definition googleSearch :: "config \<Rightarrow> env \<Rightarrow> string option \<Rightarrow> searchResult list io" where
  "googleSearch cfg e query =
     io_bind (called ''googleSearch'') (\<lambda>_.
     try_catch
       (io_bind (io_lift (searchGoogle e (orUndefined query))) (\<lambda>results.
          io_return (slice0 (MAX_SEARCH_RESULTS cfg) results)))
       (\<lambda>error. io_return []))"

text \<open>
  Reading a property throws on \<open>null\<close> and \<open>undefined\<close>; an object gives the
  property's value, or \<open>undefined\<close> when it has none; any other value has neither an
  \<open>error\<close> nor a \<open>message\<close> property.
\<close>

fun getProp :: "jsval \<Rightarrow> string \<Rightarrow> jsval result" where
  "getProp JUndefined k = Inl TypeError"
| "getProp JNull k = Inl TypeError"
| "getProp (JObj kvs) k = Inr (case map_of kvs k of Some v \<Rightarrow> v | None \<Rightarrow> JUndefined)"
| "getProp v k = Inr JUndefined"

fun truthy :: "jsval \<Rightarrow> bool" where
  "truthy JUndefined = False"
| "truthy JNull = False"
| "truthy (JBool b) = b"
| "truthy (JNum n) = (n \<noteq> 0)"
| "truthy (JStr s) = (s \<noteq> [])"
| "truthy v = True"

text \<open>A value inside a template literal; numbers, arrays and objects are rendered by
  the runtime's \<open>String\<close>.\<close>

fun interpolate :: "env \<Rightarrow> jsval \<Rightarrow> string" where
  "interpolate e (JStr s) = s"
| "interpolate e JUndefined = ''undefined''"
| "interpolate e JNull = ''null''"
| "interpolate e (JBool b) = (if b then ''true'' else ''false'')"
| "interpolate e v = toStringJs e v"

definition errorMarker :: "string \<Rightarrow> jsval" where
  "errorMarker msg = JObj [(''error'', JStr msg)]"

definition getPhoneData :: "env \<Rightarrow> string option \<Rightarrow> string option \<Rightarrow> jsval io" where
  "getPhoneData e type query =
     io_bind (called ''getPhoneData'') (\<lambda>_.
     try_catch
       (if type = Some ''contacts'' then io_lift (getContacts (phone e))
        else if type = Some ''files'' then io_lift (searchFiles (phone e) (orUndefined query))
        else if type = Some ''calendar'' then io_lift (getCalendarEvents (phone e))
        else if type = Some ''location'' then io_lift (getLocation (phone e))
        else io_return (errorMarker (''Unknown phone data type: '' @ orUndefined type)))
       (\<lambda>error.
          io_bind (io_lift (getProp error ''message'')) (\<lambda>msg.
          io_return (errorMarker
            (''Failed to access '' @ orUndefined type @ '' data: '' @ interpolate e msg)))))"

text \<open>A loop over a list that appends one rendered line per element, by index.\<close>

fun appendEach :: "(nat \<Rightarrow> 'a \<Rightarrow> string) \<Rightarrow> nat \<Rightarrow> 'a list \<Rightarrow> string" where
  "appendEach render index [] = []"
| "appendEach render index (x # xs) = render index x @ appendEach render (index + 1) xs"

definition searchFallback :: string where
  "searchFallback =
     ''I found some information online, but I'm having trouble processing it. Could you try asking in a different way?''"

definition generateResponseWithContext :: "env \<Rightarrow> string \<Rightarrow> searchResult list \<Rightarrow> string io" where
  "generateResponseWithContext e originalMessage searchResults =
     io_bind (called ''generateResponseWithContext'') (\<lambda>_.
     try_catch
       (let context = ''Search results:'' @ nl @
              appendEach (\<lambda>index r. showNat (index + 1) @ ''. '' @ title r @ '': '' @ snippet r @ nl)
                0 searchResults;
            prompt = ''Original message: '' @ dq @ originalMessage @ dq @ nl @ nl @ context @
              nl @ nl @ ''Provide a helpful response based on these search results.''
        in io_lift (generateContent e prompt))
       (\<lambda>error. io_return searchFallback))"

definition phoneFallback :: string where
  "phoneFallback =
     ''I found some information on your phone, but I'm having trouble processing it. Could you try asking in a different way?''"

definition phoneContext :: "env \<Rightarrow> jsval \<Rightarrow> string result" where
  "phoneContext e phoneData =
     (case getProp phoneData ''error'' of
        Inl err \<Rightarrow> Inl err
      | Inr err \<Rightarrow>
          Inr (''Phone data:'' @ nl @
            (if truthy err then ''Error: '' @ interpolate e err @ nl
             else (case phoneData of
                     JArr items \<Rightarrow>
                       appendEach (\<lambda>index item.
                         showNat (index + 1) @ ''. '' @ jsonStringify e item @ nl) 0 items
                   | _ \<Rightarrow> jsonStringifyPretty e phoneData))))"

definition generateResponseWithPhoneData :: "env \<Rightarrow> string \<Rightarrow> jsval \<Rightarrow> string io" where
  "generateResponseWithPhoneData e originalMessage phoneData =
     io_bind (called ''generateResponseWithPhoneData'') (\<lambda>_.
     try_catch
       (io_bind (io_lift (phoneContext e phoneData)) (\<lambda>context.
          io_lift (generateContent e
            (''Original message: '' @ dq @ originalMessage @ dq @ nl @ nl @ context @
             nl @ nl @ ''Provide a helpful response based on this phone data.''))))
       (\<lambda>error. io_return phoneFallback))"

definition personaFallback :: string where
  "personaFallback =
     ''I'm having trouble responding in your style right now. I'll get back to normal mode.''"

definition personaPrompt :: "string list \<Rightarrow> string \<Rightarrow> string" where
  "personaPrompt samples messageText =
     ''You need to respond to this message in a way that mimics the user's writing style.'' @ nl @
     ''                 Here are examples of how the user writes:'' @ nl @
     ''                 '' @ nl @
     ''                 '' @
     appendEach (\<lambda>i sample. ''Example '' @ showNat (i + 1) @ '': '' @ dq @ sample @ dq @ nl @ nl) 0
       (take (min (length samples) 5) samples) @
     ''Message to respond to: '' @ dq @ messageText @ dq @ nl @ nl @
     ''Write a response that sounds exactly like it was written by the same person who wrote the example messages.'' @ nl @
     ''               Match their tone, formality level, sentence structure, vocabulary, and any distinctive patterns.''"

definition generatePersonaResponse :: "env \<Rightarrow> string \<Rightarrow> string io" where
  "generatePersonaResponse e messageText =
     io_bind (called ''generatePersonaResponse'') (\<lambda>_.
     try_catch
       (io_bind getPersona (\<lambda>p.
          io_lift (generateContent e (personaPrompt (styleSamples p) messageText))))
       (\<lambda>error. io_return personaFallback))"

section \<open>The router: processMessage and the message handler\<close>

definition processMessage :: "config \<Rightarrow> env \<Rightarrow> string \<Rightarrow> string option io" where
  "processMessage cfg e messageText =
     io_bind (called ''processMessage'') (\<lambda>_.
     io_bind (analyzeWithAI e messageText) (\<lambda>aiAnalysis.
       if needsSearch aiAnalysis \<and> SEARCH_ENABLED cfg then
         io_bind (googleSearch cfg e (searchQuery aiAnalysis)) (\<lambda>searchResults.
         io_bind (generateResponseWithContext e messageText searchResults) (\<lambda>r.
         io_return (Some r)))
       else if needsPhoneAccess aiAnalysis \<and> PHONE_INTEGRATION_ENABLED cfg then
         io_bind (getPhoneData e (phoneAccessType aiAnalysis) (phoneAccessQuery aiAnalysis))
           (\<lambda>phoneData.
         io_bind (generateResponseWithPhoneData e messageText phoneData) (\<lambda>r.
         io_return (Some r)))
       else
         io_bind getPersona (\<lambda>p.
           if USER_PERSONA_ENABLED cfg \<and> length (styleSamples p) \<ge> 5 then
             io_bind (generatePersonaResponse e messageText) (\<lambda>r. io_return (Some r))
           else io_return (response aiAnalysis))))"

record chat =
  chatId :: string
  isGroup :: bool

record message =
  body :: string
  fromMe :: bool
  getChat :: "chat result"

definition reply :: "env \<Rightarrow> string option \<Rightarrow> unit io" where
  "reply e text = (\<lambda>w. (sendReply e text, w\<lparr>events := events w @ [Replied text]\<rparr>))"

definition getAllowedGroupIds :: "string list io" where
  "getAllowedGroupIds = (\<lambda>w. (Inr (ALLOWED_GROUP_IDS w), w))"

definition errorApology :: string where
  "errorApology = ''Sorry, I encountered an error while processing your message.''"

definition onMessage :: "config \<Rightarrow> env \<Rightarrow> message \<Rightarrow> unit io" where
  "onMessage cfg e msg =
     try_catch
       (io_bind (io_lift (getChat msg)) (\<lambda>c.
          if fromMe msg then
            (if USER_PERSONA_LEARNING_MODE cfg then learnFromUserMessage e (body msg)
             else io_return ())
          else
            io_bind getAllowedGroupIds (\<lambda>allowed.
              if GROUP_RESTRICTION_ENABLED cfg \<and> (\<not> isGroup c \<or> chatId c \<notin> set allowed)
              then io_return ()
              else io_bind (processMessage cfg e (body msg)) (\<lambda>r. reply e r))))
       (\<lambda>error.
          if \<not> GROUP_RESTRICTION_ENABLED cfg then reply e (Some errorApology)
          else io_return ())"

section \<open>The placeholder device capabilities (phone-integration.js)\<close>

definition PhoneIntegration :: phoneIntegration where
  "PhoneIntegration =
     \<lparr>getContacts = Inr (JArr []),
      searchFiles = (\<lambda>query. Inr (JArr [])),
      readFile = (\<lambda>path. Inr (JStr [])),
      getLocation = Inr (JObj [(''latitude'', JNum 0), (''longitude'', JNum 0)]),
      getCalendarEvents = Inr (JArr [])\<rparr>"

section \<open>The program's initial state and an example environment\<close>

text \<open>
  \<open>initialWorld\<close> is the state the module starts in (an empty persona, no allowed
  group), \<open>defaultConfig\<close> the configuration read from an empty process environment.
  \<open>exampleEnv\<close> is an environment whose language model gives one fixed outcome and
  whose other collaborators succeed with empty results.
\<close>

definition initialWorld :: world where
  "initialWorld =
     \<lparr>persona = \<lparr>messageHistory = [], styleSamples = []\<rparr>,
      ALLOWED_GROUP_IDS = [], events = []\<rparr>"

definition defaultConfig :: config where
  "defaultConfig =
     \<lparr>MAX_SEARCH_RESULTS = 3, SEARCH_ENABLED = True, PHONE_INTEGRATION_ENABLED = False,
      USER_PERSONA_ENABLED = False, USER_PERSONA_LEARNING_MODE = False,
      GROUP_RESTRICTION_ENABLED = False\<rparr>"

definition exampleEnv :: "string result \<Rightarrow> env" where
  "exampleEnv answer =
     \<lparr>generateContent = (\<lambda>prompt. answer),
      searchGoogle = (\<lambda>query. Inr []),
      phone = PhoneIntegration,
      writePersonaFile = (\<lambda>p. Inr ()),
      sendReply = (\<lambda>text. Inr ()),
      dateNow = 0,
      jsonStringify = (\<lambda>v. []),
      jsonStringifyPretty = (\<lambda>v. []),
      toStringJs = (\<lambda>v. [])\<rparr>"

definition personaWorld :: world where
  "personaWorld =
     initialWorld\<lparr>persona :=
       \<lparr>messageHistory = [],
        styleSamples = replicate 5 ''a message of mine that is long enough''\<rparr>\<rparr>"

definition personaConfig :: config where
  "personaConfig = defaultConfig\<lparr>USER_PERSONA_ENABLED := True\<rparr>"

definition searchAnalysis :: aiAnalysis where
  "searchAnalysis =
     \<lparr>needsSearch = True, needsPhoneAccess = False,
      searchQuery = Some ''weather in Lagos'',
      phoneAccessType = None, phoneAccessQuery = None, response = None\<rparr>"

definition restrictedConfig :: config where
  "restrictedConfig = defaultConfig\<lparr>GROUP_RESTRICTION_ENABLED := True\<rparr>"

definition strangerMessage :: "chat result \<Rightarrow> message" where
  "strangerMessage c = \<lparr>body = ''hello, who is this?'', fromMe = False, getChat = c\<rparr>"

definition allowedWorld :: world where
  "allowedWorld = initialWorld\<lparr>ALLOWED_GROUP_IDS := [''family'']\<rparr>"


definition nullishContacts :: phoneIntegration where
  "nullishContacts = PhoneIntegration\<lparr>getContacts := Inl JUndefined\<rparr>"


definition phoneConfig :: config where
  "phoneConfig = defaultConfig\<lparr>PHONE_INTEGRATION_ENABLED := True\<rparr>"

definition contactsAnalysis :: aiAnalysis where
  "contactsAnalysis =
     \<lparr>needsSearch = False, needsPhoneAccess = True, searchQuery = None,
      phoneAccessType = Some ''contacts'', phoneAccessQuery = Some [],
      response = None\<rparr>"

definition longText :: "nat \<Rightarrow> string" where
  "longText n = replicate (31 + n) CHR ''a''"

section \<open>Notions used to state the properties\<close>

text \<open>
  A sequence of \<open>learnFromUserMessage\<close> calls, each with the environment it runs in,
  and the \<open>n\<close> most recent elements of a list in insertion order.
\<close>

fun learnAll :: "(env \<times> string) list \<Rightarrow> world \<Rightarrow> world" where
  "learnAll [] w = w"
| "learnAll ((e, messageText) # calls) w =
     learnAll calls (snd (learnFromUserMessage e messageText w))"

definition lastN :: "nat \<Rightarrow> 'a list \<Rightarrow> 'a list" where
  "lastN n xs = drop (length xs - n) xs"

text \<open>
  A case-insensitive prefix: \<open>s\<close> starts with the letters of \<open>p\<close>, each in upper
  or in lower case (\<open>p\<close> is written in upper case).
\<close>

definition sameLetter :: "char \<Rightarrow> char \<Rightarrow> bool" where
  "sameLetter c u = (c = u \<or> asciiUpper c = Some u)"

definition hasPrefixIgnoringCase :: "string \<Rightarrow> string \<Rightarrow> bool" where
  "hasPrefixIgnoringCase s p = list_all2 sameLetter (take (length p) s) p"

text \<open>
  The outcome of the capability that matches a resource kind, \<open>None\<close> when the kind
  is not one of the four.
\<close>

definition selectedCapability ::
    "env \<Rightarrow> string option \<Rightarrow> string option \<Rightarrow> jsval result option" where
  "selectedCapability e t q =
     (if t = Some ''contacts'' then Some (getContacts (phone e))
      else if t = Some ''files'' then Some (searchFiles (phone e) (orUndefined q))
      else if t = Some ''calendar'' then Some (getCalendarEvents (phone e))
      else if t = Some ''location'' then Some (getLocation (phone e))
      else None)"

text \<open>The events a run has added to the log.\<close>

definition newEvents :: "world \<Rightarrow> world \<Rightarrow> event list" where
  "newEvents w w' = drop (length (events w)) (events w')"

text \<open>
  The four fulfilment paths, the functions of the source each path enters, and the
  precedence order as the specification words it: search when the action is a search
  and search is enabled, else device when the action is a device query and device
  integration is enabled, else persona when persona mode is enabled and there are at
  least five style samples, else the direct answer.
\<close>

datatype path = SearchPath | DevicePath | PersonaPath | DirectPath

fun pathCalls :: "path \<Rightarrow> event list" where
  "pathCalls SearchPath = [Called ''googleSearch'', Called ''generateResponseWithContext'']"
| "pathCalls DevicePath = [Called ''getPhoneData'', Called ''generateResponseWithPhoneData'']"
| "pathCalls PersonaPath = [Called ''generatePersonaResponse'']"
| "pathCalls DirectPath = []"

text \<open>
  The calls of a path as far as it runs: the device path stops after \<open>getPhoneData\<close>
  when that raises. \<open>pathsEntered\<close> reads from a log which paths were entered, by the
  first function of each.
\<close>

definition pathCallsUntil :: "path \<Rightarrow> bool \<Rightarrow> event list" where
  "pathCallsUntil p raised =
     (if p = DevicePath \<and> raised then [Called ''getPhoneData''] else pathCalls p)"

definition pathsEntered :: "event list \<Rightarrow> path list" where
  "pathsEntered evs =
     concat (map (\<lambda>ev.
       if ev = Called ''googleSearch'' then [SearchPath]
       else if ev = Called ''getPhoneData'' then [DevicePath]
       else if ev = Called ''generatePersonaResponse'' then [PersonaPath]
       else []) evs)"

definition specPrecedence :: "config \<Rightarrow> aiAnalysis \<Rightarrow> nat \<Rightarrow> path" where
  "specPrecedence cfg a sampleCount =
     (if needsSearch a \<and> SEARCH_ENABLED cfg then SearchPath
      else if needsPhoneAccess a \<and> PHONE_INTEGRATION_ENABLED cfg then DevicePath
      else if USER_PERSONA_ENABLED cfg \<and> sampleCount \<ge> 5 then PersonaPath
      else DirectPath)"

section \<open>Properties of the string operations\<close>

declare showNat.simps [simp del]

lemma splitOn_not_Nil: "splitOn sep s \<noteq> []"
  by (induction s) (auto split: list.splits)

lemma hd_splitOn: "hd (splitOn sep s) = takeWhile (\<lambda>c. c \<noteq> sep) s"
  by (induction s) (auto split: list.splits simp: splitOn_not_Nil)

lemma join_Cons: "ps \<noteq> [] \<Longrightarrow> join sep (p # ps) = p @ sep @ join sep ps"
  by (cases ps) auto

lemma join_Cons_Cons: "join sep ((c # p) # ps) = c # join sep (p # ps)"
  by (cases ps) auto

lemma join_splitOn: "join [sep] (splitOn sep s) = s"
proof (induction s)
  case Nil
  show ?case by simp
next
  case (Cons c cs)
  show ?case
  proof (cases "c = sep")
    case True
    then show ?thesis using Cons by (simp add: join_Cons splitOn_not_Nil)
  next
    case False
    obtain p ps where sp: "splitOn sep cs = p # ps"
      using splitOn_not_Nil by (cases "splitOn sep cs") auto
    with False Cons show ?thesis by (simp add: join_Cons_Cons)
  qed
qed

lemma join_tl_splitOn:
  "join [sep] (tl (splitOn sep s)) = drop 1 (dropWhile (\<lambda>c. c \<noteq> sep) s)"
proof (induction s)
  case Nil
  show ?case by simp
next
  case (Cons c cs)
  show ?case
  proof (cases "c = sep")
    case True
    then show ?thesis by (simp add: join_splitOn)
  next
    case False
    obtain p ps where sp: "splitOn sep cs = p # ps"
      using splitOn_not_Nil by (cases "splitOn sep cs") auto
    with False Cons show ?thesis by simp
  qed
qed

lemma upper_of_pattern_letter:
  "\<forall>u \<in> set ''SEARCHPONE:''. toUpperUnits u = [of_char u] \<and> of_char u < (128::nat)"
  by (simp add: toUpperUnits_def asciiUpper_def)

lemma upper_sameLetter:
  assumes "sameLetter c u" and "u \<in> set ''SEARCHPONE:''"
  shows "toUpperUnits c = [of_char u]"
proof (cases "c = u")
  case True
  with assms(2) upper_of_pattern_letter show ?thesis by blast
next
  case False
  with assms(1) have "asciiUpper c = Some u" by (simp add: sameLetter_def)
  then show ?thesis by (simp add: toUpperUnits_def)
qed

lemma sameLetter_upper:
  assumes "toUpperUnits c = [of_char u]" and "u \<in> set ''SEARCHPONE:''"
  shows "sameLetter c u"
proof (cases "asciiUpper c")
  case (Some v)
  with assms(1) show ?thesis by (simp add: sameLetter_def toUpperUnits_def)
next
  case None
  from assms(2) upper_of_pattern_letter have small: "of_char u < (128::nat)" by blast
  from None assms(1) small have "(of_char c :: nat) = of_char u"
    by (simp add: toUpperUnits_def Let_def split: if_splits)
  then have "c = u" by simp
  then show ?thesis by (simp add: sameLetter_def)
qed

lemma upper_units_shape: "(\<exists>n. toUpperUnits c = [n]) \<or> toUpperUnits c = [83, 83]"
  by (simp add: toUpperUnits_def Let_def split: option.splits)

lemma toUpperCase_Cons: "toUpperCase (c # s) = toUpperUnits c @ toUpperCase s"
  by (simp add: toUpperCase_def)

lemma toUpperCase_append: "toUpperCase (s @ t) = toUpperCase s @ toUpperCase t"
  by (simp add: toUpperCase_def)

lemma startsWith_Nil [simp]: "startsWith s []"
  by (simp add: startsWith_def)

lemma startsWith_Cons_Cons: "startsWith (x # xs) (y # ys) = (x = y \<and> startsWith xs ys)"
  by (simp add: startsWith_def)

lemma startsWith_Nil_Cons [simp]: "\<not> startsWith [] (y # ys)"
  by (simp add: startsWith_def)

text \<open>One step of matching a pattern letter other than S.\<close>

lemma upper_prefix_step:
  assumes m: "startsWith (toUpperCase s) (of_char u # us)"
    and u: "u \<in> set ''SEARCHPONE:''" and nS: "u \<noteq> CHR ''S''"
  shows "\<exists>c s'. s = c # s' \<and> sameLetter c u \<and> startsWith (toUpperCase s') us"
proof (cases s)
  case Nil
  with m show ?thesis by (simp add: toUpperCase_def)
next
  case (Cons c s')
  from u nS have ne: "of_char u \<noteq> (83::nat)" by auto
  from upper_units_shape [of c] show ?thesis
  proof
    assume "\<exists>n. toUpperUnits c = [n]"
    then obtain n where n: "toUpperUnits c = [n]" ..
    with m Cons have "n = of_char u" and r: "startsWith (toUpperCase s') us"
      by (simp_all add: toUpperCase_Cons startsWith_Cons_Cons)
    with n have "sameLetter c u" using sameLetter_upper u by simp
    with r Cons show ?thesis by simp
  next
    assume "toUpperUnits c = [83, 83]"
    with m Cons ne show ?thesis
      by (simp add: toUpperCase_Cons startsWith_Cons_Cons)
  qed
qed

text \<open>The step for an S that is followed by another pattern letter, not S.\<close>

lemma upper_prefix_step_S:
  assumes m: "startsWith (toUpperCase s) (83 # of_char v # us)"
    and v: "v \<in> set ''SEARCHPONE:''" and nS: "v \<noteq> CHR ''S''"
  shows "\<exists>c s'. s = c # s' \<and> sameLetter c CHR ''S'' \<and>
           startsWith (toUpperCase s') (of_char v # us)"
proof (cases s)
  case Nil
  with m show ?thesis by (simp add: toUpperCase_def)
next
  case (Cons c s')
  from v nS have ne: "of_char v \<noteq> (83::nat)" by auto
  from upper_units_shape [of c] show ?thesis
  proof
    assume "\<exists>n. toUpperUnits c = [n]"
    then obtain n where n: "toUpperUnits c = [n]" ..
    with m Cons have "n = of_char CHR ''S''" and r: "startsWith (toUpperCase s') (of_char v # us)"
      by (simp_all add: toUpperCase_Cons startsWith_Cons_Cons)
    with n have "sameLetter c CHR ''S''" using sameLetter_upper [of c "CHR ''S''"] by simp
    with r Cons show ?thesis by simp
  next
    assume "toUpperUnits c = [83, 83]"
    with m Cons ne show ?thesis
      by (simp add: toUpperCase_Cons startsWith_Cons_Cons)
  qed
qed

lemma hasPrefix_imp_upper:
  assumes "hasPrefixIgnoringCase s p" and "set p \<subseteq> set ''SEARCHPONE:''"
  shows "startsWith (toUpperCase s) (codeUnits p)"
proof -
  have "toUpperCase a = codeUnits p" if "list_all2 sameLetter a p" "set p \<subseteq> set ''SEARCHPONE:''"
    for a p
    using that
  proof (induction a p rule: list_all2_induct)
    case Nil
    show ?case by (simp add: toUpperCase_def codeUnits_def)
  next
    case (Cons c a u p)
    then have "toUpperUnits c = [of_char u]" by (intro upper_sameLetter) auto
    with Cons show ?case by (simp add: toUpperCase_Cons codeUnits_def)
  qed
  with assms have t: "toUpperCase (take (length p) s) = codeUnits p"
    by (simp add: hasPrefixIgnoringCase_def)
  have "toUpperCase s = toUpperCase (take (length p) s) @ toUpperCase (drop (length p) s)"
    by (simp add: toUpperCase_append [symmetric])
  with t show ?thesis by (simp add: startsWith_def codeUnits_def)
qed

lemma upper_SEARCH_iff:
  "startsWith (toUpperCase s) (codeUnits ''SEARCH:'') = hasPrefixIgnoringCase s ''SEARCH:''"
proof
  assume "startsWith (toUpperCase s) (codeUnits ''SEARCH:'')"
  then have m: "startsWith (toUpperCase s)
      (83 # of_char CHR ''E'' # of_char CHR ''A'' # of_char CHR ''R'' # of_char CHR ''C'' #
       of_char CHR ''H'' # of_char CHR '':'' # [])"
    by (simp add: codeUnits_def)
  from upper_prefix_step_S [OF m] obtain c1 s1 where 1: "s = c1 # s1" "sameLetter c1 CHR ''S''"
    and m1: "startsWith (toUpperCase s1) (of_char CHR ''E'' # of_char CHR ''A'' #
      of_char CHR ''R'' # of_char CHR ''C'' # of_char CHR ''H'' # of_char CHR '':'' # [])"
    by auto
  from upper_prefix_step [OF m1] obtain c2 s2 where 2: "s1 = c2 # s2" "sameLetter c2 CHR ''E''"
    and m2: "startsWith (toUpperCase s2) (of_char CHR ''A'' #
      of_char CHR ''R'' # of_char CHR ''C'' # of_char CHR ''H'' # of_char CHR '':'' # [])"
    by auto
  from upper_prefix_step [OF m2] obtain c3 s3 where 3: "s2 = c3 # s3" "sameLetter c3 CHR ''A''"
    and m3: "startsWith (toUpperCase s3) (of_char CHR ''R'' # of_char CHR ''C'' #
      of_char CHR ''H'' # of_char CHR '':'' # [])"
    by auto
  from upper_prefix_step [OF m3] obtain c4 s4 where 4: "s3 = c4 # s4" "sameLetter c4 CHR ''R''"
    and m4: "startsWith (toUpperCase s4) (of_char CHR ''C'' # of_char CHR ''H'' #
      of_char CHR '':'' # [])"
    by auto
  from upper_prefix_step [OF m4] obtain c5 s5 where 5: "s4 = c5 # s5" "sameLetter c5 CHR ''C''"
    and m5: "startsWith (toUpperCase s5) (of_char CHR ''H'' # of_char CHR '':'' # [])"
    by auto
  from upper_prefix_step [OF m5] obtain c6 s6 where 6: "s5 = c6 # s6" "sameLetter c6 CHR ''H''"
    and m6: "startsWith (toUpperCase s6) (of_char CHR '':'' # [])"
    by auto
  from upper_prefix_step [OF m6] obtain c7 s7 where 7: "s6 = c7 # s7" "sameLetter c7 CHR '':''"
    by auto
  from 1 2 3 4 5 6 7 show "hasPrefixIgnoringCase s ''SEARCH:''"
    by (simp add: hasPrefixIgnoringCase_def)
next
  assume "hasPrefixIgnoringCase s ''SEARCH:''"
  then show "startsWith (toUpperCase s) (codeUnits ''SEARCH:'')"
    by (rule hasPrefix_imp_upper) simp
qed

lemma upper_PHONE_iff:
  "startsWith (toUpperCase s) (codeUnits ''PHONE:'') = hasPrefixIgnoringCase s ''PHONE:''"
proof
  assume "startsWith (toUpperCase s) (codeUnits ''PHONE:'')"
  then have m: "startsWith (toUpperCase s)
      (of_char CHR ''P'' # of_char CHR ''H'' # of_char CHR ''O'' # of_char CHR ''N'' #
       of_char CHR ''E'' # of_char CHR '':'' # [])"
    by (simp add: codeUnits_def)
  from upper_prefix_step [OF m] obtain c1 s1 where 1: "s = c1 # s1" "sameLetter c1 CHR ''P''"
    and m1: "startsWith (toUpperCase s1) (of_char CHR ''H'' # of_char CHR ''O'' #
      of_char CHR ''N'' # of_char CHR ''E'' # of_char CHR '':'' # [])"
    by auto
  from upper_prefix_step [OF m1] obtain c2 s2 where 2: "s1 = c2 # s2" "sameLetter c2 CHR ''H''"
    and m2: "startsWith (toUpperCase s2) (of_char CHR ''O'' #
      of_char CHR ''N'' # of_char CHR ''E'' # of_char CHR '':'' # [])"
    by auto
  from upper_prefix_step [OF m2] obtain c3 s3 where 3: "s2 = c3 # s3" "sameLetter c3 CHR ''O''"
    and m3: "startsWith (toUpperCase s3) (of_char CHR ''N'' # of_char CHR ''E'' #
      of_char CHR '':'' # [])"
    by auto
  from upper_prefix_step [OF m3] obtain c4 s4 where 4: "s3 = c4 # s4" "sameLetter c4 CHR ''N''"
    and m4: "startsWith (toUpperCase s4) (of_char CHR ''E'' # of_char CHR '':'' # [])"
    by auto
  from upper_prefix_step [OF m4] obtain c5 s5 where 5: "s4 = c5 # s5" "sameLetter c5 CHR ''E''"
    and m5: "startsWith (toUpperCase s5) (of_char CHR '':'' # [])"
    by auto
  from upper_prefix_step [OF m5] obtain c6 s6 where 6: "s5 = c6 # s6" "sameLetter c6 CHR '':''"
    by auto
  from 1 2 3 4 5 6 show "hasPrefixIgnoringCase s ''PHONE:''"
    by (simp add: hasPrefixIgnoringCase_def)
next
  assume "hasPrefixIgnoringCase s ''PHONE:''"
  then show "startsWith (toUpperCase s) (codeUnits ''PHONE:'')"
    by (rule hasPrefix_imp_upper) simp
qed

lemma phone_prefix_not_search:
  assumes "hasPrefixIgnoringCase s ''PHONE:''"
  shows "\<not> hasPrefixIgnoringCase s ''SEARCH:''"
proof
  assume "hasPrefixIgnoringCase s ''SEARCH:''"
  then have "startsWith (toUpperCase s) (codeUnits ''SEARCH:'')"
    by (simp only: upper_SEARCH_iff)
  moreover from assms have "startsWith (toUpperCase s) (codeUnits ''PHONE:'')"
    by (simp only: upper_PHONE_iff)
  ultimately show False
    by (cases "toUpperCase s") (simp_all add: startsWith_def codeUnits_def)
qed

text \<open>What \<open>trim\<close> removes is white space, and what it leaves has none at either end.\<close>

lemma trim_split:
  "dropWhile isWhiteSpace s =
     trim s @ rev (takeWhile isWhiteSpace (rev (dropWhile isWhiteSpace s)))"
proof -
  let ?m = "dropWhile isWhiteSpace s"
  have "?m = rev (takeWhile isWhiteSpace (rev ?m) @ dropWhile isWhiteSpace (rev ?m))"
    by (simp only: takeWhile_dropWhile_id rev_rev_ident)
  also have "\<dots> = rev (dropWhile isWhiteSpace (rev ?m)) @ rev (takeWhile isWhiteSpace (rev ?m))"
    by (rule rev_append)
  finally show ?thesis by (simp only: trim_def)
qed

lemma trim_decomposition:
  "\<exists>a b. s = a @ trim s @ b \<and> list_all isWhiteSpace a \<and> list_all isWhiteSpace b"
proof -
  let ?a = "takeWhile isWhiteSpace s"
  let ?b = "rev (takeWhile isWhiteSpace (rev (dropWhile isWhiteSpace s)))"
  have "s = ?a @ dropWhile isWhiteSpace s" by simp
  with trim_split [of s] have "s = ?a @ trim s @ ?b" by simp
  moreover have "list_all isWhiteSpace ?a"
    unfolding list_all_iff by (blast dest: set_takeWhileD)
  moreover have "list_all isWhiteSpace ?b"
    unfolding list_all_iff set_rev by (blast dest: set_takeWhileD)
  ultimately show ?thesis by blast
qed

lemma trim_ends:
  assumes "trim s \<noteq> []"
  shows "\<not> isWhiteSpace (hd (trim s)) \<and> \<not> isWhiteSpace (last (trim s))"
proof -
  let ?m = "dropWhile isWhiteSpace s"
  let ?d = "dropWhile isWhiteSpace (rev ?m)"
  from assms have ne: "?d \<noteq> []" by (simp add: trim_def)
  then have "\<not> isWhiteSpace (hd ?d)" by (rule hd_dropWhile)
  with ne have l: "\<not> isWhiteSpace (last (trim s))" by (simp add: trim_def last_rev)
  from trim_split [of s] assms have "hd ?m = hd (trim s)" and "?m \<noteq> []"
    by (metis hd_append2, metis append_is_Nil_conv)
  moreover from \<open>?m \<noteq> []\<close> have "\<not> isWhiteSpace (hd ?m)" by (rule hd_dropWhile)
  ultimately show ?thesis using l by simp
qed

lemmas string_defs = startsWith_def toUpperCase_def toUpperUnits_def asciiUpper_def
  codeUnits_def toLowerCase_def toLowerChar_def asciiLower_def trim_def isWhiteSpace_def
  hasPrefixIgnoringCase_def sameLetter_def

section \<open>Properties of the classifier\<close>

lemmas io_defs = io_bind_def io_return_def io_throw_def io_lift_def try_catch_def called_def

lemma analyzeWithAI_returns:
  "\<exists>a. analyzeWithAI e text w = (Inr a, w\<lparr>events := events w @ [Called ''analyzeWithAI'']\<rparr>)"
  unfolding analyzeWithAI_def
  by (simp add: io_defs split: sum.splits list.splits)

text \<open>
  Claim C3. When the language model's output starts with \<open>PHONE:\<close> in any letter case,
  the classifier takes the trimmed remainder, cuts it at its first colon only, returns
  the lower-cased left part as the resource kind and the trimmed rest, with every further
  colon kept, as the query text. The outputs \<open>PHONE: files: invoice 2023\<close> and
  \<open>PHONE: location:\<close> give the kinds \<open>files\<close> and \<open>location\<close> with the queries
  \<open>invoice 2023\<close> and the empty text.
\<close>

theorem analyzeWithAI_phone:
  assumes gen: "generateContent e (analysisPrompt text) = Inr r"
    and pre: "hasPrefixIgnoringCase r ''PHONE:''"
  shows "analyzeWithAI e text w =
    (Inr \<lparr>needsSearch = False, needsPhoneAccess = True, searchQuery = None,
       phoneAccessType =
         Some (toLowerCase (takeWhile (\<lambda>c. c \<noteq> CHR '':'') (trim (drop 6 r)))),
       phoneAccessQuery =
         Some (trim (drop 1 (dropWhile (\<lambda>c. c \<noteq> CHR '':'') (trim (drop 6 r))))),
       response = None\<rparr>,
     w\<lparr>events := events w @ [Called ''analyzeWithAI'']\<rparr>)"
proof -
  let ?cmd = "trim (drop 6 r)"
  obtain p ps where sp: "splitOn CHR '':'' ?cmd = p # ps"
    using splitOn_not_Nil by (cases "splitOn CHR '':'' ?cmd") auto
  have p: "p = takeWhile (\<lambda>c. c \<noteq> CHR '':'') ?cmd"
    using hd_splitOn [of "CHR '':''" ?cmd] sp by simp
  have ps: "join '':'' ps = drop 1 (dropWhile (\<lambda>c. c \<noteq> CHR '':'') ?cmd)"
    using join_tl_splitOn [of "CHR '':''" ?cmd] sp by simp
  have len: "length ''PHONE:'' = 6" by simp
  have notSearch: "\<not> startsWith (toUpperCase r) (codeUnits ''SEARCH:'')"
    using phone_prefix_not_search [OF pre] by (simp add: upper_SEARCH_iff)
  have phone: "startsWith (toUpperCase r) (codeUnits ''PHONE:'')"
    using pre by (simp only: upper_PHONE_iff)
  show ?thesis
    unfolding analyzeWithAI_def substring_def len
    by (simp add: io_defs gen notSearch phone sp p ps)
qed

theorem analyzeWithAI_phone_witness:
  "hasPrefixIgnoringCase ''PHONE: files: invoice 2023'' ''PHONE:'' \<and>
   fst (analyzeWithAI (exampleEnv (Inr ''PHONE: files: invoice 2023'')) ''where is my invoice''
          initialWorld) =
     Inr \<lparr>needsSearch = False, needsPhoneAccess = True, searchQuery = None,
       phoneAccessType = Some ''files'', phoneAccessQuery = Some ''invoice 2023'',
       response = None\<rparr> \<and>
   hasPrefixIgnoringCase ''PHONE: location:'' ''PHONE:'' \<and>
   fst (analyzeWithAI (exampleEnv (Inr ''PHONE: location:'')) ''where am I'' initialWorld) =
     Inr \<lparr>needsSearch = False, needsPhoneAccess = True, searchQuery = None,
       phoneAccessType = Some ''location'', phoneAccessQuery = Some [],
       response = None\<rparr> \<and>
   hasPrefixIgnoringCase (''Phone:  FILES: Invoice: 2023 '' @ [CHR 0xA0]) ''PHONE:'' \<and>
   fst (analyzeWithAI (exampleEnv (Inr (''Phone:  FILES: Invoice: 2023 '' @ [CHR 0xA0])))
          ''where is my invoice'' initialWorld) =
     Inr \<lparr>needsSearch = False, needsPhoneAccess = True, searchQuery = None,
       phoneAccessType = Some ''files'', phoneAccessQuery = Some ''Invoice: 2023'',
       response = None\<rparr> \<and>
   hasPrefixIgnoringCase (''phone: CAF'' @ [CHR 0xC9] @ '' :x'') ''PHONE:'' \<and>
   fst (analyzeWithAI (exampleEnv (Inr (''phone: CAF'' @ [CHR 0xC9] @ '' :x'')))
          ''coffee'' initialWorld) =
     Inr \<lparr>needsSearch = False, needsPhoneAccess = True, searchQuery = None,
       phoneAccessType = Some (''caf'' @ [CHR 0xE9] @ '' ''), phoneAccessQuery = Some ''x'',
       response = None\<rparr>"
proof -
  let ?r1 = "''PHONE: files: invoice 2023''"
  let ?r2 = "''PHONE: location:''"
  let ?r3 = "''Phone:  FILES: Invoice: 2023 '' @ [CHR 0xA0]"
  let ?r4 = "''phone: CAF'' @ [CHR 0xC9] @ '' :x''"
  have h1: "hasPrefixIgnoringCase ?r1 ''PHONE:''"
    and h2: "hasPrefixIgnoringCase ?r2 ''PHONE:''"
    and h3: "hasPrefixIgnoringCase ?r3 ''PHONE:''"
    and h4: "hasPrefixIgnoringCase ?r4 ''PHONE:''"
    by (simp_all add: hasPrefixIgnoringCase_def sameLetter_def asciiUpper_def)
  have g: "generateContent (exampleEnv (Inr r)) (analysisPrompt m) = Inr r" for r m
    by (simp add: exampleEnv_def)
  have k1: "toLowerCase (takeWhile (\<lambda>c. c \<noteq> CHR '':'') (trim (drop 6 ?r1))) = ''files''"
    and q1: "trim (drop 1 (dropWhile (\<lambda>c. c \<noteq> CHR '':'') (trim (drop 6 ?r1)))) =
      ''invoice 2023''"
    and k2: "toLowerCase (takeWhile (\<lambda>c. c \<noteq> CHR '':'') (trim (drop 6 ?r2))) = ''location''"
    and q2: "trim (drop 1 (dropWhile (\<lambda>c. c \<noteq> CHR '':'') (trim (drop 6 ?r2)))) = []"
    and k3: "toLowerCase (takeWhile (\<lambda>c. c \<noteq> CHR '':'') (trim (drop 6 ?r3))) = ''files''"
    and q3: "trim (drop 1 (dropWhile (\<lambda>c. c \<noteq> CHR '':'') (trim (drop 6 ?r3)))) =
      ''Invoice: 2023''"
    and k4: "toLowerCase (takeWhile (\<lambda>c. c \<noteq> CHR '':'') (trim (drop 6 ?r4))) =
      ''caf'' @ [CHR 0xE9] @ '' ''"
    and q4: "trim (drop 1 (dropWhile (\<lambda>c. c \<noteq> CHR '':'') (trim (drop 6 ?r4)))) = ''x''"
    by code_simp+
  note t1 = analyzeWithAI_phone [OF g h1, of "''where is my invoice''" initialWorld,
      unfolded k1 q1]
  note t2 = analyzeWithAI_phone [OF g h2, of "''where am I''" initialWorld, unfolded k2 q2]
  note t3 = analyzeWithAI_phone [OF g h3, of "''where is my invoice''" initialWorld,
      unfolded k3 q3]
  note t4 = analyzeWithAI_phone [OF g h4, of "''coffee''" initialWorld, unfolded k4 q4]
  show ?thesis
    by (simp only: h1 h2 h3 h4 t1 t2 t3 t4 fst_conv simp_thms)
qed

text \<open>
  Claim C4. When the language model's output starts with \<open>SEARCH:\<close> in any letter case,
  the classifier returns a search request whose query is the trimmed remainder; when the
  output starts with neither \<open>SEARCH:\<close> nor \<open>PHONE:\<close>, it returns a direct answer
  whose text is the whole output, and no error.
\<close>

theorem analyzeWithAI_search_direct:
  assumes gen: "generateContent e (analysisPrompt text) = Inr r"
  shows "(hasPrefixIgnoringCase r ''SEARCH:'' \<longrightarrow>
            analyzeWithAI e text w =
              (Inr \<lparr>needsSearch = True, needsPhoneAccess = False,
                 searchQuery = Some (trim (drop 7 r)),
                 phoneAccessType = None, phoneAccessQuery = None, response = None\<rparr>,
               w\<lparr>events := events w @ [Called ''analyzeWithAI'']\<rparr>)) \<and>
         (\<not> hasPrefixIgnoringCase r ''SEARCH:'' \<and> \<not> hasPrefixIgnoringCase r ''PHONE:'' \<longrightarrow>
            analyzeWithAI e text w =
              (Inr \<lparr>needsSearch = False, needsPhoneAccess = False,
                 searchQuery = None, phoneAccessType = None, phoneAccessQuery = None,
                 response = Some r\<rparr>,
               w\<lparr>events := events w @ [Called ''analyzeWithAI'']\<rparr>))"
proof -
  have len: "length ''SEARCH:'' = 7" by simp
  show ?thesis
    unfolding analyzeWithAI_def substring_def len upper_SEARCH_iff upper_PHONE_iff
    by (simp add: io_defs gen)
qed

theorem analyzeWithAI_search_direct_witness:
  "hasPrefixIgnoringCase ''SEARCH: weather in Lagos'' ''SEARCH:'' \<and>
   fst (analyzeWithAI (exampleEnv (Inr ''SEARCH: weather in Lagos'')) ''will it rain''
          initialWorld) =
     Inr \<lparr>needsSearch = True, needsPhoneAccess = False,
       searchQuery = Some ''weather in Lagos'',
       phoneAccessType = None, phoneAccessQuery = None, response = None\<rparr> \<and>
   hasPrefixIgnoringCase (''search:'' @ [CHR 0xA0] @ ''Weather '' @ [CHR 0xA0, CHR 0x0A])
     ''SEARCH:'' \<and>
   fst (analyzeWithAI
          (exampleEnv (Inr (''search:'' @ [CHR 0xA0] @ ''Weather '' @ [CHR 0xA0, CHR 0x0A])))
          ''will it rain'' initialWorld) =
     Inr \<lparr>needsSearch = True, needsPhoneAccess = False,
       searchQuery = Some ''Weather'',
       phoneAccessType = None, phoneAccessQuery = None, response = None\<rparr> \<and>
   \<not> hasPrefixIgnoringCase ''Searching: it is sunny'' ''SEARCH:'' \<and>
   \<not> hasPrefixIgnoringCase ''Searching: it is sunny'' ''PHONE:'' \<and>
   fst (analyzeWithAI (exampleEnv (Inr ''Searching: it is sunny'')) ''hi'' initialWorld) =
     Inr \<lparr>needsSearch = False, needsPhoneAccess = False,
       searchQuery = None, phoneAccessType = None, phoneAccessQuery = None,
       response = Some ''Searching: it is sunny''\<rparr>"
proof -
  let ?r1 = "''SEARCH: weather in Lagos''"
  let ?r2 = "''search:'' @ [CHR 0xA0] @ ''Weather '' @ [CHR 0xA0, CHR 0x0A]"
  let ?r3 = "''Searching: it is sunny''"
  have h1: "hasPrefixIgnoringCase ?r1 ''SEARCH:''"
    and h2: "hasPrefixIgnoringCase ?r2 ''SEARCH:''"
    and h3: "\<not> hasPrefixIgnoringCase ?r3 ''SEARCH:''"
    and h4: "\<not> hasPrefixIgnoringCase ?r3 ''PHONE:''"
    by (simp_all add: hasPrefixIgnoringCase_def sameLetter_def asciiUpper_def)
  have g: "generateContent (exampleEnv (Inr r)) (analysisPrompt m) = Inr r" for r m
    by (simp add: exampleEnv_def)
  have q1: "trim (drop 7 ?r1) = ''weather in Lagos''"
    and q2: "trim (drop 7 ?r2) = ''Weather''"
    by code_simp+
  note t1 = analyzeWithAI_search_direct [OF g, of ?r1 "''will it rain''" initialWorld,
      unfolded q1]
  note t2 = analyzeWithAI_search_direct [OF g, of ?r2 "''will it rain''" initialWorld,
      unfolded q2]
  note t3 = analyzeWithAI_search_direct [OF g, of ?r3 "''hi''" initialWorld]
  from t1 h1 have a1: "fst (analyzeWithAI (exampleEnv (Inr ?r1)) ''will it rain'' initialWorld) =
      Inr \<lparr>needsSearch = True, needsPhoneAccess = False,
        searchQuery = Some ''weather in Lagos'',
        phoneAccessType = None, phoneAccessQuery = None, response = None\<rparr>"
    by simp
  from t2 h2 have a2: "fst (analyzeWithAI (exampleEnv (Inr ?r2)) ''will it rain'' initialWorld) =
      Inr \<lparr>needsSearch = True, needsPhoneAccess = False,
        searchQuery = Some ''Weather'',
        phoneAccessType = None, phoneAccessQuery = None, response = None\<rparr>"
    by simp
  from t3 h3 h4 have a3: "fst (analyzeWithAI (exampleEnv (Inr ?r3)) ''hi'' initialWorld) =
      Inr \<lparr>needsSearch = False, needsPhoneAccess = False,
        searchQuery = None, phoneAccessType = None, phoneAccessQuery = None,
        response = Some ?r3\<rparr>"
    by simp
  from h1 h2 h3 h4 a1 a2 a3 show ?thesis by blast
qed

text \<open>
  Claim C7. When the call of the language model fails, the classifier does not raise: it
  returns a direct answer that carries the fixed apology.
\<close>

theorem analyzeWithAI_oracle_failure:
  assumes gen: "generateContent e (analysisPrompt text) = Inl err"
  shows "analyzeWithAI e text w =
           (Inr \<lparr>needsSearch = False, needsPhoneAccess = False,
              searchQuery = None, phoneAccessType = None, phoneAccessQuery = None,
              response = Some analysisFallback\<rparr>,
            w\<lparr>events := events w @ [Called ''analyzeWithAI'']\<rparr>)"
  using gen unfolding analyzeWithAI_def by (simp add: io_defs)

theorem analyzeWithAI_oracle_failure_witness:
  "fst (analyzeWithAI (exampleEnv (Inl (Error ''quota exceeded''))) ''hi'' initialWorld) =
     Inr \<lparr>needsSearch = False, needsPhoneAccess = False,
       searchQuery = None, phoneAccessType = None, phoneAccessQuery = None,
       response = Some ''I'm having trouble understanding your message right now. Could you please try again?''\<rparr>"
proof -
  have g: "generateContent (exampleEnv (Inl (Error ''quota exceeded'')))
             (analysisPrompt ''hi'') = Inl (Error ''quota exceeded'')"
    by (simp add: exampleEnv_def)
  show ?thesis
    using analyzeWithAI_oracle_failure [OF g, of initialWorld]
    by (simp add: analysisFallback_def)
qed

section \<open>Properties of the persona store\<close>

lemma length_lastN: "length (lastN n xs) = min n (length xs)"
  by (simp add: lastN_def)

lemma lastN_short: "length xs \<le> n \<Longrightarrow> lastN n xs = xs"
  by (simp add: lastN_def)

lemma lastN_lastN_append: "lastN n (lastN n xs @ ys) = lastN n (xs @ ys)"
  by (cases "length xs \<le> n") (auto simp: lastN_def add.commute)

lemma lastN_append_long: "n \<le> length ys \<Longrightarrow> lastN n (xs @ ys) = lastN n ys"
  by (simp add: lastN_def)

lemma capped_push:
  assumes "length xs \<le> n" and "0 < n"
  shows "(if length (push x xs) > n then shift (push x xs) else push x xs) = lastN n (xs @ [x])"
proof (cases "length xs = n")
  case True
  with assms have "xs \<noteq> []" by auto
  with True show ?thesis by (cases xs) (auto simp: push_def shift_def lastN_def)
next
  case False
  with assms show ?thesis by (simp add: push_def lastN_def)
qed

lemma persona_learn:
  "persona (snd (learnFromUserMessage e t w)) =
     (if length t < 10 then persona w
      else addToHistory (dateNow e) t (addStyleSample t (persona w)))"
  unfolding learnFromUserMessage_def saveUserPersona_def modifyPersona_def getPersona_def
  by (simp add: io_defs split: sum.splits prod.splits)

lemma styleSamples_addToHistory [simp]:
  "styleSamples (addToHistory now t p) = styleSamples p"
  by (simp add: addToHistory_def Let_def)

lemma messageHistory_addStyleSample [simp]:
  "messageHistory (addStyleSample t p) = messageHistory p"
  by (simp add: addStyleSample_def Let_def)

lemma styleSamples_addStyleSample:
  assumes "length (styleSamples p) \<le> 50"
  shows "styleSamples (addStyleSample t p) =
           lastN 50 (styleSamples p @ filter (\<lambda>t. 30 < length t) [t])"
proof (cases "30 < length t")
  case True
  then have "styleSamples (addStyleSample t p) =
      (if length (push t (styleSamples p)) > 50 then shift (push t (styleSamples p))
       else push t (styleSamples p))"
    by (simp add: addStyleSample_def Let_def)
  also have "\<dots> = lastN 50 (styleSamples p @ [t])"
    using assms by (intro capped_push) simp_all
  finally show ?thesis using True by simp
next
  case False
  with assms show ?thesis by (simp add: addStyleSample_def lastN_short)
qed

lemma messageHistory_addToHistory:
  assumes "length (messageHistory p) \<le> 100"
  shows "map content (messageHistory (addToHistory now t p)) =
           lastN 100 (map content (messageHistory p) @ [t])"
proof -
  let ?m = "\<lparr>role = ''user'', content = t, timestamp = now\<rparr>"
  have "messageHistory (addToHistory now t p) =
      (if length (push ?m (messageHistory p)) > 100 then shift (push ?m (messageHistory p))
       else push ?m (messageHistory p))"
    by (simp add: addToHistory_def Let_def)
  also have "\<dots> = lastN 100 (messageHistory p @ [?m])"
    using assms by (intro capped_push) simp_all
  finally show ?thesis by (simp add: lastN_def drop_map)
qed

lemma styleSamples_learn:
  assumes "length (styleSamples (persona w)) \<le> 50"
  shows "styleSamples (persona (snd (learnFromUserMessage e t w))) =
           lastN 50 (styleSamples (persona w) @ filter (\<lambda>t. 30 < length t) [t])"
proof (cases "length t < 10")
  case True
  with assms show ?thesis by (simp add: persona_learn lastN_short)
next
  case False
  then show ?thesis
    by (simp only: persona_learn if_False styleSamples_addToHistory
          styleSamples_addStyleSample [OF assms])
qed

lemma history_learn:
  assumes "length (messageHistory (persona w)) \<le> 100"
  shows "map content (messageHistory (persona (snd (learnFromUserMessage e t w)))) =
           lastN 100 (map content (messageHistory (persona w)) @ filter (\<lambda>t. 10 \<le> length t) [t])"
proof (cases "length t < 10")
  case True
  with assms show ?thesis by (simp add: persona_learn lastN_short)
next
  case False
  have "length (messageHistory (addStyleSample t (persona w))) \<le> 100"
    using assms by simp
  from messageHistory_addToHistory [OF this, of "dateNow e" t] False
  show ?thesis by (simp add: persona_learn)
qed

lemma styleSamples_learnAll:
  "length (styleSamples (persona w)) \<le> 50 \<Longrightarrow>
   styleSamples (persona (learnAll calls w)) =
     lastN 50 (styleSamples (persona w) @ filter (\<lambda>t. 30 < length t) (map snd calls))"
proof (induction calls arbitrary: w)
  case Nil
  then show ?case by (simp add: lastN_short)
next
  case (Cons c calls)
  obtain e t where c: "c = (e, t)" by (cases c)
  let ?w = "snd (learnFromUserMessage e t w)"
  have step: "styleSamples (persona ?w) =
      lastN 50 (styleSamples (persona w) @ filter (\<lambda>t. 30 < length t) [t])"
    using Cons.prems by (rule styleSamples_learn)
  then have "length (styleSamples (persona ?w)) \<le> 50"
    by (simp add: length_lastN)
  then have "styleSamples (persona (learnAll calls ?w)) =
      lastN 50 (styleSamples (persona ?w) @ filter (\<lambda>t. 30 < length t) (map snd calls))"
    by (rule Cons.IH)
  also have "\<dots> = lastN 50 ((styleSamples (persona w) @ filter (\<lambda>t. 30 < length t) [t]) @
      filter (\<lambda>t. 30 < length t) (map snd calls))"
    unfolding step by (rule lastN_lastN_append)
  finally show ?case by (simp add: c)
qed

lemma history_learnAll:
  "length (messageHistory (persona w)) \<le> 100 \<Longrightarrow>
   map content (messageHistory (persona (learnAll calls w))) =
     lastN 100 (map content (messageHistory (persona w)) @
       filter (\<lambda>t. 10 \<le> length t) (map snd calls))"
proof (induction calls arbitrary: w)
  case Nil
  then show ?case by (simp add: lastN_short)
next
  case (Cons c calls)
  obtain e t where c: "c = (e, t)" by (cases c)
  let ?w = "snd (learnFromUserMessage e t w)"
  have step: "map content (messageHistory (persona ?w)) =
      lastN 100 (map content (messageHistory (persona w)) @ filter (\<lambda>t. 10 \<le> length t) [t])"
    using Cons.prems by (rule history_learn)
  then have "length (map content (messageHistory (persona ?w))) \<le> 100"
    by (simp add: length_lastN)
  then have "length (messageHistory (persona ?w)) \<le> 100" by simp
  then have "map content (messageHistory (persona (learnAll calls ?w))) =
      lastN 100 (map content (messageHistory (persona ?w)) @
        filter (\<lambda>t. 10 \<le> length t) (map snd calls))"
    by (rule Cons.IH)
  also have "\<dots> = lastN 100 ((map content (messageHistory (persona w)) @
      filter (\<lambda>t. 10 \<le> length t) [t]) @ filter (\<lambda>t. 10 \<le> length t) (map snd calls))"
    unfolding step by (rule lastN_lastN_append)
  finally show ?case by (simp add: c)
qed

text \<open>
  Claim C5. Starting from a persona within its caps (the empty persona the program
  starts with, or any persona the program has saved), after every sequence of
  \<open>learnFromUserMessage\<close> calls there are at most 50 style samples and at most 100
  history entries; the style samples are the 50 most recent texts longer than 30
  characters and the history holds the 100 most recent texts of at least 10 characters,
  both in insertion order, so the oldest entry is the one dropped. After more than 50
  texts longer than 30 characters there are exactly 50 style samples, the 50 most recent
  of those texts.
\<close>

theorem learnFromUserMessage_caps_fifo:
  assumes s: "length (styleSamples (persona w)) \<le> 50"
    and h: "length (messageHistory (persona w)) \<le> 100"
  shows "length (styleSamples (persona (learnAll calls w))) \<le> 50 \<and>
         length (messageHistory (persona (learnAll calls w))) \<le> 100 \<and>
         styleSamples (persona (learnAll calls w)) =
           lastN 50 (styleSamples (persona w) @
             filter (\<lambda>t. 30 < length t) (map snd calls)) \<and>
         map content (messageHistory (persona (learnAll calls w))) =
           lastN 100 (map content (messageHistory (persona w)) @
             filter (\<lambda>t. 10 \<le> length t) (map snd calls)) \<and>
         (50 < length (filter (\<lambda>t. 30 < length t) (map snd calls)) \<longrightarrow>
            length (styleSamples (persona (learnAll calls w))) = 50 \<and>
            styleSamples (persona (learnAll calls w)) =
              lastN 50 (filter (\<lambda>t. 30 < length t) (map snd calls)))"
proof -
  let ?q = "filter (\<lambda>t. 30 < length t) (map snd calls)"
  note ss = styleSamples_learnAll [OF s, of calls]
  note hh = history_learnAll [OF h, of calls]
  have 1: "length (styleSamples (persona (learnAll calls w))) \<le> 50"
    unfolding ss by (simp add: length_lastN)
  have "length (map content (messageHistory (persona (learnAll calls w)))) \<le> 100"
    unfolding hh by (simp add: length_lastN)
  then have 2: "length (messageHistory (persona (learnAll calls w))) \<le> 100" by simp
  have 3: "length (styleSamples (persona (learnAll calls w))) = 50 \<and>
           styleSamples (persona (learnAll calls w)) = lastN 50 ?q" if "50 < length ?q"
  proof -
    from that have "lastN 50 (styleSamples (persona w) @ ?q) = lastN 50 ?q"
      by (intro lastN_append_long) simp
    with that show ?thesis unfolding ss by (simp add: length_lastN)
  qed
  from 1 2 3 ss hh show ?thesis by blast
qed

theorem learnFromUserMessage_caps_fifo_witness:
  "length (styleSamples (persona initialWorld)) \<le> 50 \<and>
   length (messageHistory (persona initialWorld)) \<le> 100 \<and>
   50 < length (filter (\<lambda>t. 30 < length t)
          (map snd (map (\<lambda>n. (exampleEnv (Inr []), longText n)) [0..<51]))) \<and>
   styleSamples (persona (learnAll (map (\<lambda>n. (exampleEnv (Inr []), longText n)) [0..<51])
     initialWorld)) = map longText [1..<51]"
proof -
  let ?calls = "map (\<lambda>n. (exampleEnv (Inr []), longText n)) [0..<51]"
  have s: "length (styleSamples (persona initialWorld)) \<le> 50"
    and h: "length (messageHistory (persona initialWorld)) \<le> 100"
    by (simp_all add: initialWorld_def)
  have q: "filter (\<lambda>t. 30 < length t) (map snd ?calls) = map longText [0..<51]"
    by (simp add: filter_map o_def longText_def)
  have l: "lastN 50 (map longText [0..<51]) = map longText [1..<51]"
    by (simp add: lastN_def drop_map)
  have e: "styleSamples (persona initialWorld) = []"
    by (simp add: initialWorld_def)
  show ?thesis
    using learnFromUserMessage_caps_fifo [OF s h, of ?calls] s h
    unfolding q e append_Nil l by simp
qed

text \<open>
  Claim C6. For a text shorter than 10 characters \<open>learnFromUserMessage\<close> returns
  at once: the style samples and the message history are unchanged and
  \<open>saveUserPersona\<close> is not called.
\<close>

theorem learnFromUserMessage_short:
  assumes "length messageText < 10"
  shows "learnFromUserMessage e messageText w =
           (Inr (), w\<lparr>events := events w @ [Called ''learnFromUserMessage'']\<rparr>) \<and>
         styleSamples (persona (snd (learnFromUserMessage e messageText w))) =
           styleSamples (persona w) \<and>
         messageHistory (persona (snd (learnFromUserMessage e messageText w))) =
           messageHistory (persona w) \<and>
         Called ''saveUserPersona'' \<notin>
           set (drop (length (events w)) (events (snd (learnFromUserMessage e messageText w))))"
  using assms unfolding learnFromUserMessage_def by (simp add: io_defs)

theorem learnFromUserMessage_short_witness:
  "length ''ok'' < 10 \<and>
   learnFromUserMessage (exampleEnv (Inr [])) ''ok'' initialWorld =
     (Inr (), initialWorld\<lparr>events := [Called ''learnFromUserMessage'']\<rparr>)"
proof -
  have l: "length ''ok'' < 10" by simp
  show ?thesis
    using learnFromUserMessage_short [OF l, of "exampleEnv (Inr [])" initialWorld]
    by (simp add: initialWorld_def)
qed

section \<open>Properties of the device query\<close>

lemma getPhoneData_selected:
  "getPhoneData e t q w =
     (\<lambda>w'. case selectedCapability e t q of
        None \<Rightarrow>
          (Inr (JObj [(''error'', JStr (''Unknown phone data type: '' @ orUndefined t))]), w')
      | Some (Inr v) \<Rightarrow> (Inr v, w')
      | Some (Inl err) \<Rightarrow>
          (case getProp err ''message'' of
             Inl x \<Rightarrow> (Inl x, w')
           | Inr m \<Rightarrow>
               (Inr (JObj [(''error'',
                  JStr (''Failed to access '' @ orUndefined t @ '' data: '' @ interpolate e m))]),
                w')))
       (w\<lparr>events := events w @ [Called ''getPhoneData'']\<rparr>)"
  unfolding getPhoneData_def selectedCapability_def errorMarker_def
  by (simp add: io_defs split: sum.splits)





text \<open>
  Claim C10. For the resource kinds \<open>contacts\<close>, \<open>calendar\<close> and \<open>location\<close>
  the outcome of \<open>getPhoneData\<close> does not depend on the query text: the capability is
  called without it.
\<close>

theorem getPhoneData_query_independent:
  assumes "t \<in> {Some ''contacts'', Some ''calendar'', Some ''location''}"
  shows "getPhoneData e t q1 w = getPhoneData e t q2 w"
  using assms unfolding getPhoneData_def by auto

theorem getPhoneData_query_independent_witness:
  "Some ''location'' \<in> {Some ''contacts'', Some ''calendar'', Some ''location''} \<and>
   getPhoneData (exampleEnv (Inr [])) (Some ''location'') (Some ''home'') initialWorld =
   getPhoneData (exampleEnv (Inr [])) (Some ''location'') (Some ''work'') initialWorld"
proof -
  have m: "Some ''location'' \<in> {Some ''contacts'', Some ''calendar'', Some ''location''}"
    by simp
  show ?thesis
    using m getPhoneData_query_independent [OF m, of "exampleEnv (Inr [])" "Some ''home''"
      initialWorld "Some ''work''"]
    by simp
qed

section \<open>Properties of the router\<close>

lemma analyzeWithAI_world:
  "analyzeWithAI e text w =
     (fst (analyzeWithAI e text w0), w\<lparr>events := events w @ [Called ''analyzeWithAI'']\<rparr>)"
  unfolding analyzeWithAI_def
  by (simp add: io_defs split: sum.splits list.splits)

lemma io_bind_returns: "m w = (Inr x, w') \<Longrightarrow> io_bind m f w = f x w'"
  by (simp add: io_bind_def)

lemma googleSearch_returns:
  "\<exists>r w'. googleSearch cfg e q w = (Inr r, w') \<and>
     events w' = events w @ [Called ''googleSearch'']"
  unfolding googleSearch_def
  by (auto simp: io_defs Let_def split: sum.splits)

lemma generateResponseWithContext_returns:
  "\<exists>r w'. generateResponseWithContext e m rs w = (Inr r, w') \<and>
     events w' = events w @ [Called ''generateResponseWithContext'']"
  unfolding generateResponseWithContext_def
  by (auto simp: io_defs Let_def split: sum.splits)

lemma io_bind_raises: "m w = (Inl x, w') \<Longrightarrow> io_bind m f w = (Inl x, w')"
  by (simp add: io_bind_def)

lemma getPhoneData_world:
  "getPhoneData e t q w =
     (fst (getPhoneData e t q w0), w\<lparr>events := events w @ [Called ''getPhoneData'']\<rparr>)"
  by (simp add: getPhoneData_selected split: option.splits sum.splits)

lemma generateResponseWithPhoneData_returns:
  "\<exists>r w'. generateResponseWithPhoneData e m d w = (Inr r, w') \<and>
     events w' = events w @ [Called ''generateResponseWithPhoneData'']"
  unfolding generateResponseWithPhoneData_def
  by (auto simp: io_defs Let_def split: sum.splits)

lemma generatePersonaResponse_returns:
  "\<exists>r w'. generatePersonaResponse e m w = (Inr r, w') \<and>
     events w' = events w @ [Called ''generatePersonaResponse'']"
  unfolding generatePersonaResponse_def getPersona_def
  by (auto simp: io_defs Let_def split: sum.splits)

lemma processMessage_after_analysis:
  assumes a: "fst (analyzeWithAI e text w) = Inr a"
    and w2: "w2 = w\<lparr>events := events w @ [Called ''processMessage'', Called ''analyzeWithAI'']\<rparr>"
  shows "processMessage cfg e text w =
    (if needsSearch a \<and> SEARCH_ENABLED cfg then
       io_bind (googleSearch cfg e (searchQuery a)) (\<lambda>searchResults.
       io_bind (generateResponseWithContext e text searchResults) (\<lambda>r.
       io_return (Some r)))
     else if needsPhoneAccess a \<and> PHONE_INTEGRATION_ENABLED cfg then
       io_bind (getPhoneData e (phoneAccessType a) (phoneAccessQuery a)) (\<lambda>phoneData.
       io_bind (generateResponseWithPhoneData e text phoneData) (\<lambda>r.
       io_return (Some r)))
     else
       io_bind getPersona (\<lambda>p.
         if USER_PERSONA_ENABLED cfg \<and> length (styleSamples p) \<ge> 5 then
           io_bind (generatePersonaResponse e text) (\<lambda>r. io_return (Some r))
         else io_return (response a))) w2"
proof -
  define w1 where "w1 = w\<lparr>events := events w @ [Called ''processMessage'']\<rparr>"
  have c1: "called ''processMessage'' w = (Inr (), w1)"
    by (simp add: called_def w1_def)
  have an: "analyzeWithAI e text w1 = (Inr a, w2)"
    using analyzeWithAI_world [of e "text" w1 w] a by (simp add: w1_def w2)
  show ?thesis
    unfolding processMessage_def
    by (simp only: io_bind_returns [of "called ''processMessage''" w, OF c1]
          io_bind_returns [of "analyzeWithAI e text" w1, OF an])
qed

lemma processMessage_direct:
  assumes a: "fst (analyzeWithAI e text w) = Inr a"
    and "\<not> (needsSearch a \<and> SEARCH_ENABLED cfg)"
    and "\<not> (needsPhoneAccess a \<and> PHONE_INTEGRATION_ENABLED cfg)"
    and "\<not> (USER_PERSONA_ENABLED cfg \<and> length (styleSamples (persona w)) \<ge> 5)"
  shows "processMessage cfg e text w =
           (Inr (response a),
            w\<lparr>events := events w @ [Called ''processMessage'', Called ''analyzeWithAI'']\<rparr>)"
  unfolding processMessage_after_analysis [OF a refl] using assms(2-)
  by (auto simp add: io_bind_def io_return_def getPersona_def)

lemma processMessage_events:
  assumes a: "fst (analyzeWithAI e text w) = Inr a"
  shows "events (snd (processMessage cfg e text w)) =
           events w @ [Called ''processMessage'', Called ''analyzeWithAI''] @
           pathCallsUntil (specPrecedence cfg a (length (styleSamples (persona w))))
             (isl (fst (getPhoneData e (phoneAccessType a) (phoneAccessQuery a) w)))"
proof -
  define w2 where
    "w2 = w\<lparr>events := events w @ [Called ''processMessage'', Called ''analyzeWithAI'']\<rparr>"
  have ev2: "events w2 = events w @ [Called ''processMessage'', Called ''analyzeWithAI'']"
    and p2: "persona w2 = persona w"
    by (simp_all add: w2_def)
  note pm = processMessage_after_analysis [OF a w2_def, of cfg]
  show ?thesis
  proof (cases "specPrecedence cfg a (length (styleSamples (persona w)))")
    case SearchPath
    then have c: "needsSearch a \<and> SEARCH_ENABLED cfg"
      by (auto simp: specPrecedence_def split: if_splits)
    obtain rs w3 where g: "googleSearch cfg e (searchQuery a) w2 = (Inr rs, w3)"
      and ev3: "events w3 = events w2 @ [Called ''googleSearch'']"
      using googleSearch_returns by blast
    obtain r w4 where r: "generateResponseWithContext e text rs w3 = (Inr r, w4)"
      and ev4: "events w4 = events w3 @ [Called ''generateResponseWithContext'']"
      using generateResponseWithContext_returns by blast
    show ?thesis
      unfolding pm SearchPath using c
      by (auto simp add: io_bind_returns [of "googleSearch cfg e (searchQuery a)" w2, OF g]
            io_bind_returns [of "generateResponseWithContext e text rs" w3, OF r]
            io_return_def pathCallsUntil_def ev2 ev3 ev4)
  next
    case DevicePath
    then have c: "\<not> (needsSearch a \<and> SEARCH_ENABLED cfg)"
        "needsPhoneAccess a \<and> PHONE_INTEGRATION_ENABLED cfg"
      by (auto simp: specPrecedence_def split: if_splits)
    define w3 where "w3 = w2\<lparr>events := events w2 @ [Called ''getPhoneData'']\<rparr>"
    have ev3: "events w3 = events w2 @ [Called ''getPhoneData'']"
      by (simp add: w3_def)
    have g: "getPhoneData e (phoneAccessType a) (phoneAccessQuery a) w2 =
        (fst (getPhoneData e (phoneAccessType a) (phoneAccessQuery a) w), w3)"
      unfolding w3_def by (rule getPhoneData_world)
    show ?thesis
    proof (cases "fst (getPhoneData e (phoneAccessType a) (phoneAccessQuery a) w)")
      case (Inl x)
      with g have g': "getPhoneData e (phoneAccessType a) (phoneAccessQuery a) w2 = (Inl x, w3)"
        by simp
      show ?thesis
        unfolding pm DevicePath using c Inl
        by (auto simp add:
              io_bind_raises [of "getPhoneData e (phoneAccessType a) (phoneAccessQuery a)" w2,
                OF g']
              pathCallsUntil_def ev2 ev3)
    next
      case (Inr d)
      with g have g': "getPhoneData e (phoneAccessType a) (phoneAccessQuery a) w2 = (Inr d, w3)"
        by simp
      obtain r w4 where r: "generateResponseWithPhoneData e text d w3 = (Inr r, w4)"
        and ev4: "events w4 = events w3 @ [Called ''generateResponseWithPhoneData'']"
        using generateResponseWithPhoneData_returns by blast
      show ?thesis
        unfolding pm DevicePath using c Inr
        by (auto simp add:
              io_bind_returns [of "getPhoneData e (phoneAccessType a) (phoneAccessQuery a)" w2,
                OF g']
              io_bind_returns [of "generateResponseWithPhoneData e text d" w3, OF r]
              io_return_def pathCallsUntil_def ev2 ev3 ev4)
    qed
  next
    case PersonaPath
    then have c: "\<not> (needsSearch a \<and> SEARCH_ENABLED cfg)"
        "\<not> (needsPhoneAccess a \<and> PHONE_INTEGRATION_ENABLED cfg)"
        "USER_PERSONA_ENABLED cfg \<and> length (styleSamples (persona w)) \<ge> 5"
      by (auto simp: specPrecedence_def split: if_splits)
    have gp: "getPersona w2 = (Inr (persona w), w2)"
      by (auto simp add: getPersona_def p2)
    obtain r w3 where r: "generatePersonaResponse e text w2 = (Inr r, w3)"
      and ev3: "events w3 = events w2 @ [Called ''generatePersonaResponse'']"
      using generatePersonaResponse_returns by blast
    show ?thesis
      unfolding pm PersonaPath using c
      by (auto simp add: io_bind_returns [of getPersona w2, OF gp] io_bind_returns [of "generatePersonaResponse e text" w2, OF r] io_return_def
            pathCallsUntil_def ev2 ev3)
  next
    case DirectPath
    then have c: "\<not> (needsSearch a \<and> SEARCH_ENABLED cfg)"
        "\<not> (needsPhoneAccess a \<and> PHONE_INTEGRATION_ENABLED cfg)"
        "\<not> (USER_PERSONA_ENABLED cfg \<and> length (styleSamples (persona w)) \<ge> 5)"
      by (auto simp: specPrecedence_def split: if_splits)
    have gp: "getPersona w2 = (Inr (persona w), w2)"
      by (auto simp add: getPersona_def p2)
    show ?thesis
      unfolding pm DirectPath using c
      by (auto simp add: io_bind_returns [of getPersona w2, OF gp] io_return_def
            pathCallsUntil_def ev2)
  qed
qed

lemma example_search_analysis:
  "fst (analyzeWithAI (exampleEnv (Inr ''SEARCH: weather in Lagos'')) ''will it rain'' w) =
     Inr searchAnalysis"
  unfolding analyzeWithAI_def searchAnalysis_def
  by (simp add: io_defs exampleEnv_def string_defs substring_def)

lemma example_contacts_analysis:
  "fst (analyzeWithAI (exampleEnv (Inr ''PHONE: contacts:'')\<lparr>phone := nullishContacts\<rparr>)
     ''who do I know'' w) = Inr contactsAnalysis"
  unfolding analyzeWithAI_def contactsAnalysis_def
  by (simp add: io_defs exampleEnv_def string_defs substring_def)

lemma onMessage_replies_with_result:
  assumes "getChat msg = Inr c" and "\<not> fromMe msg" and "\<not> GROUP_RESTRICTION_ENABLED cfg"
    and "processMessage cfg e (body msg) w = (Inr r, w')" and "sendReply e r = Inr ()"
  shows "onMessage cfg e msg w = (Inr (), w'\<lparr>events := events w' @ [Replied r]\<rparr>)"
  using assms unfolding onMessage_def
  by (simp add: io_bind_def io_lift_def try_catch_def io_return_def getAllowedGroupIds_def
        reply_def)

lemma onMessage_disabled_search_replies_null:
  "onMessage (defaultConfig\<lparr>SEARCH_ENABLED := False\<rparr>)
     (exampleEnv (Inr ''SEARCH: weather in Lagos''))
     \<lparr>body = ''will it rain'', fromMe = False,
      getChat = Inr \<lparr>chatId = ''family'', isGroup = True\<rparr>\<rparr> initialWorld =
     (Inr (),
      initialWorld\<lparr>events :=
        [Called ''processMessage'', Called ''analyzeWithAI'', Replied None]\<rparr>)"
proof -
  let ?cfg = "defaultConfig\<lparr>SEARCH_ENABLED := False\<rparr>"
  let ?e = "exampleEnv (Inr ''SEARCH: weather in Lagos'')"
  let ?msg = "\<lparr>body = ''will it rain'', fromMe = False,
      getChat = Inr \<lparr>chatId = ''family'', isGroup = True\<rparr>\<rparr>"
  have pm: "processMessage ?cfg ?e (body ?msg) initialWorld =
      (Inr None, initialWorld\<lparr>events := events initialWorld @
         [Called ''processMessage'', Called ''analyzeWithAI'']\<rparr>)"
    using processMessage_direct [OF example_search_analysis, of ?cfg initialWorld]
    by (simp add: defaultConfig_def initialWorld_def searchAnalysis_def)
  have "onMessage ?cfg ?e ?msg initialWorld =
      (Inr (), (initialWorld\<lparr>events := events initialWorld @
         [Called ''processMessage'', Called ''analyzeWithAI'']\<rparr>)
         \<lparr>events := events (initialWorld\<lparr>events := events initialWorld @
         [Called ''processMessage'', Called ''analyzeWithAI'']\<rparr>) @ [Replied None]\<rparr>)"
    by (rule onMessage_replies_with_result [OF _ _ _ pm])
      (simp_all add: defaultConfig_def exampleEnv_def)
  then show ?thesis by (simp add: initialWorld_def)
qed

text \<open>
  Claim C1, at an input where it fails. With search disabled and persona mode off, a
  message that the language model classifies as a search request makes
  \<open>processMessage\<close> return \<open>null\<close>, the \<open>response\<close> field of a search
  analysis; the handler passes what \<open>processMessage\<close> returns to \<open>message.reply\<close>.
  The reply is no displayable text.
\<close>

theorem processMessage_disabled_search_null:
  "processMessage (defaultConfig\<lparr>SEARCH_ENABLED := False\<rparr>)
     (exampleEnv (Inr ''SEARCH: weather in Lagos'')) ''will it rain'' initialWorld =
     (Inr None,
      initialWorld\<lparr>events := [Called ''processMessage'', Called ''analyzeWithAI'']\<rparr>)"
  using processMessage_direct [OF example_search_analysis,
      of "defaultConfig\<lparr>SEARCH_ENABLED := False\<rparr>" initialWorld]
  by (simp add: defaultConfig_def initialWorld_def searchAnalysis_def)

text \<open>
  Claim C2. \<open>processMessage\<close> enters exactly one fulfilment path, the one the
  precedence order search, device, persona, direct selects (none for the direct answer),
  and calls the functions of that path only; the device path stops after
  \<open>getPhoneData\<close> when that raises. In particular, with persona mode enabled and at
  least five style samples, a search request with search enabled runs \<open>googleSearch\<close>
  and never \<open>generatePersonaResponse\<close>.
\<close>

theorem processMessage_precedence:
  assumes a: "fst (analyzeWithAI e text w) = Inr a"
  shows "newEvents w (snd (processMessage cfg e text w)) =
           [Called ''processMessage'', Called ''analyzeWithAI''] @
           pathCallsUntil (specPrecedence cfg a (length (styleSamples (persona w))))
             (isl (fst (getPhoneData e (phoneAccessType a) (phoneAccessQuery a) w))) \<and>
         pathsEntered (newEvents w (snd (processMessage cfg e text w))) =
           (case specPrecedence cfg a (length (styleSamples (persona w))) of
              DirectPath \<Rightarrow> [] | p \<Rightarrow> [p]) \<and>
         (USER_PERSONA_ENABLED cfg \<and> length (styleSamples (persona w)) \<ge> 5 \<and>
          needsSearch a \<and> SEARCH_ENABLED cfg \<longrightarrow>
            Called ''googleSearch'' \<in> set (newEvents w (snd (processMessage cfg e text w))) \<and>
            Called ''generatePersonaResponse'' \<notin>
              set (newEvents w (snd (processMessage cfg e text w))))"
proof -
  let ?p = "specPrecedence cfg a (length (styleSamples (persona w)))"
  let ?raised = "isl (fst (getPhoneData e (phoneAccessType a) (phoneAccessQuery a) w))"
  have ev: "newEvents w (snd (processMessage cfg e text w)) =
      [Called ''processMessage'', Called ''analyzeWithAI''] @ pathCallsUntil ?p ?raised"
    using processMessage_events [OF a, of cfg] by (simp add: newEvents_def)
  have entered: "pathsEntered ([Called ''processMessage'', Called ''analyzeWithAI''] @
      pathCallsUntil ?p ?raised) = (case ?p of DirectPath \<Rightarrow> [] | p \<Rightarrow> [p])"
    by (cases ?p) (simp_all add: pathsEntered_def pathCallsUntil_def)
  have search: "pathCallsUntil ?p ?raised =
      [Called ''googleSearch'', Called ''generateResponseWithContext'']"
    if "needsSearch a \<and> SEARCH_ENABLED cfg"
    using that by (simp add: specPrecedence_def pathCallsUntil_def)
  show ?thesis
    unfolding ev using entered search by auto
qed

theorem processMessage_precedence_witness:
  "fst (analyzeWithAI (exampleEnv (Inr ''SEARCH: weather in Lagos'')) ''will it rain''
     personaWorld) = Inr searchAnalysis \<and>
   USER_PERSONA_ENABLED personaConfig \<and>
   length (styleSamples (persona personaWorld)) \<ge> 5 \<and>
   needsSearch searchAnalysis \<and> SEARCH_ENABLED personaConfig \<and>
   newEvents personaWorld
     (snd (processMessage personaConfig (exampleEnv (Inr ''SEARCH: weather in Lagos''))
        ''will it rain'' personaWorld)) =
     [Called ''processMessage'', Called ''analyzeWithAI'', Called ''googleSearch'',
      Called ''generateResponseWithContext''] \<and>
   Called ''generatePersonaResponse'' \<notin>
     set (newEvents personaWorld
       (snd (processMessage personaConfig (exampleEnv (Inr ''SEARCH: weather in Lagos''))
          ''will it rain'' personaWorld))) \<and>
   fst (analyzeWithAI (exampleEnv (Inr ''PHONE: contacts:'')\<lparr>phone := nullishContacts\<rparr>)
     ''who do I know'' initialWorld) = Inr contactsAnalysis \<and>
   newEvents initialWorld
     (snd (processMessage phoneConfig
        (exampleEnv (Inr ''PHONE: contacts:'')\<lparr>phone := nullishContacts\<rparr>)
        ''who do I know'' initialWorld)) =
     [Called ''processMessage'', Called ''analyzeWithAI'', Called ''getPhoneData'']"
proof -
  let ?e2 = "exampleEnv (Inr ''PHONE: contacts:'')\<lparr>phone := nullishContacts\<rparr>"
  have c: "USER_PERSONA_ENABLED personaConfig \<and>
      length (styleSamples (persona personaWorld)) \<ge> 5 \<and>
      needsSearch searchAnalysis \<and> SEARCH_ENABLED personaConfig"
    by (simp add: personaConfig_def defaultConfig_def personaWorld_def initialWorld_def
          searchAnalysis_def)
  have p: "specPrecedence personaConfig searchAnalysis
      (length (styleSamples (persona personaWorld))) = SearchPath"
    using c by (simp add: specPrecedence_def)
  have p2: "specPrecedence phoneConfig contactsAnalysis
      (length (styleSamples (persona initialWorld))) = DevicePath"
    by (simp add: specPrecedence_def phoneConfig_def defaultConfig_def contactsAnalysis_def)
  have raised: "isl (fst (getPhoneData ?e2 (phoneAccessType contactsAnalysis)
      (phoneAccessQuery contactsAnalysis) initialWorld))"
    unfolding getPhoneData_def
    by (simp add: io_defs contactsAnalysis_def nullishContacts_def)
  note t1 = processMessage_precedence [OF example_search_analysis,
      of personaWorld personaConfig, unfolded p]
  note t2 = processMessage_precedence [OF example_contacts_analysis,
      of initialWorld phoneConfig, unfolded p2]
  from t1 have a1: "newEvents personaWorld
      (snd (processMessage personaConfig (exampleEnv (Inr ''SEARCH: weather in Lagos''))
         ''will it rain'' personaWorld)) =
      [Called ''processMessage'', Called ''analyzeWithAI'', Called ''googleSearch'',
       Called ''generateResponseWithContext'']"
    by (simp add: pathCallsUntil_def)
  from t2 raised have a2: "newEvents initialWorld
      (snd (processMessage phoneConfig ?e2 ''who do I know'' initialWorld)) =
      [Called ''processMessage'', Called ''analyzeWithAI'', Called ''getPhoneData'']"
    by (simp add: pathCallsUntil_def)
  from a1 have a3: "Called ''generatePersonaResponse'' \<notin>
      set (newEvents personaWorld
        (snd (processMessage personaConfig (exampleEnv (Inr ''SEARCH: weather in Lagos''))
           ''will it rain'' personaWorld)))"
    by simp
  from c a1 a2 a3 example_search_analysis [of personaWorld]
    example_contacts_analysis [of initialWorld]
  show ?thesis by blast
qed

text \<open>
  Claim C9. With group restriction enabled, a message that is not the user's own and
  whose chat is not in the allowed list produces no reply, changes nothing and raises
  no error; the same holds when looking up the chat fails, where the error is swallowed
  and no apology is sent.
\<close>

theorem onMessage_gated_silent:
  assumes "GROUP_RESTRICTION_ENABLED cfg" and "\<not> fromMe msg"
    and "\<forall>c. getChat msg = Inr c \<longrightarrow> chatId c \<notin> set (ALLOWED_GROUP_IDS w)"
  shows "onMessage cfg e msg w = (Inr (), w)"
  using assms unfolding onMessage_def
  by (auto simp: io_defs getAllowedGroupIds_def split: sum.splits)

theorem onMessage_gated_silent_witness:
  "GROUP_RESTRICTION_ENABLED restrictedConfig \<and>
   \<not> fromMe (strangerMessage (Inr \<lparr>chatId = ''strangers'', isGroup = True\<rparr>)) \<and>
   ''strangers'' \<notin> set (ALLOWED_GROUP_IDS allowedWorld) \<and>
   onMessage restrictedConfig (exampleEnv (Inr ''Hello''))
     (strangerMessage (Inr \<lparr>chatId = ''strangers'', isGroup = True\<rparr>)) allowedWorld =
     (Inr (), allowedWorld) \<and>
   onMessage restrictedConfig (exampleEnv (Inr ''Hello''))
     (strangerMessage (Inl (Error ''chat unavailable''))) allowedWorld =
     (Inr (), allowedWorld)"
proof -
  have r: "GROUP_RESTRICTION_ENABLED restrictedConfig"
    by (simp add: restrictedConfig_def)
  have n: "\<not> fromMe (strangerMessage c)" for c
    by (simp add: strangerMessage_def)
  have s: "''strangers'' \<notin> set (ALLOWED_GROUP_IDS allowedWorld)"
    by (simp add: allowedWorld_def initialWorld_def)
  have a1: "\<forall>c. getChat (strangerMessage (Inr \<lparr>chatId = ''strangers'', isGroup = True\<rparr>)) = Inr c
      \<longrightarrow> chatId c \<notin> set (ALLOWED_GROUP_IDS allowedWorld)"
    using s by (auto simp: strangerMessage_def)
  have a2: "\<forall>c. getChat (strangerMessage (Inl (Error ''chat unavailable''))) = Inr c
      \<longrightarrow> chatId c \<notin> set (ALLOWED_GROUP_IDS allowedWorld)"
    by (simp add: strangerMessage_def)
  show ?thesis
    using r n s onMessage_gated_silent [OF r n a1, of "exampleEnv (Inr ''Hello'')"]
      onMessage_gated_silent [OF r n a2, of "exampleEnv (Inr ''Hello'')"]
    by simp
qed

end
